theory Spec2Isabelle
  imports Main "HOL-Library.Multiset"
begin

section \<open>Data model: boards and tasks (src/App.js)\<close>

text \<open>
  A content item is the object \<^verbatim>\<open>{ type, text }\<close>. A task is the object
  \<^verbatim>\<open>{ id, title, description, dueDate, priority, tags, subtasks, content }\<close>;
  its scalar fields form a record and \<^verbatim>\<open>subtasks\<close> is the recursive part.
  A board is \<^verbatim>\<open>{ id, title, color, order, tasks }\<close>. The state \<^verbatim>\<open>boards\<close>
  is an array of boards. All ids, titles, colours, dates and priorities are JavaScript
  strings; \<^verbatim>\<open>order\<close> is a number that the code only ever sets to an array length
  or an array index.
\<close>

record content_item =
  item_type :: string
  item_text :: string

record task_fields =
  task_id :: string
  task_title :: string
  description :: string
  dueDate :: string
  priority :: string
  tags :: "string list"
  content :: "content_item list"

datatype task = Task (attrs: task_fields) (subtasks: "task list")

record board =
  board_id :: string
  board_title :: string
  color :: string
  order :: int
  tasks :: "task list"

text \<open>The drag payload written by \<^verbatim>\<open>handleTaskDragStart\<close>,
  \<^verbatim>\<open>{ boardId, taskId, isSubtask, parentTaskId }\<close>; the first two fields carry the
  names \<^verbatim>\<open>handleTaskDrop\<close> gives them when it reads the payload.\<close>

record dragData =
  sourceBoardId :: string
  sourceTaskId :: string
  isSubtask :: bool
  parentTaskId :: "string option"

section \<open>Array primitives of the language\<close>

text \<open>\<^verbatim>\<open>Array.prototype.findIndex\<close>: the first index whose element satisfies the
  predicate; \<^verbatim>\<open>-1\<close> is \<open>None\<close>.\<close>

fun findIndex :: "('a \<Rightarrow> bool) \<Rightarrow> 'a list \<Rightarrow> nat option" where
  "findIndex P [] = None"
| "findIndex P (x # xs) = (if P x then Some 0 else map_option Suc (findIndex P xs))"

text \<open>\<^verbatim>\<open>arr.splice(start, 1)\<close> with its relative start: a negative start counts
  from the end (clamped at 0), a start beyond the end is clamped to the length, and the
  element at the resulting position, if there is one, is removed.\<close>

definition splice_start :: "int \<Rightarrow> nat \<Rightarrow> nat" where
  "splice_start start len =
     (if start < 0 then nat (max (int len + start) 0) else min (nat start) len)"

definition splice_remove1 :: "'a list \<Rightarrow> int \<Rightarrow> 'a list" where
  "splice_remove1 xs start =
     (let k = splice_start start (length xs) in take k xs @ drop (Suc k) xs)"

text \<open>\<^verbatim>\<open>arr.splice(start, 0, x)\<close> for a start \<open>\<ge> 0\<close>: insertion at \<open>min start length\<close>.\<close>

definition splice_insert :: "'a list \<Rightarrow> nat \<Rightarrow> 'a \<Rightarrow> 'a list" where
  "splice_insert xs start x = take start xs @ x # drop start xs"

section \<open>Task relocation: \<^verbatim>\<open>handleTaskDrop\<close>\<close>

text \<open>
  The recursive helpers of the source loop over an array and return as soon as the id is
  found, at the element itself or inside its \<^verbatim>\<open>subtasks\<close>. The value they return to
  the caller and the array as they leave it are both results here: \<open>None\<close> is the
  source's \<^verbatim>\<open>null\<close> / \<^verbatim>\<open>false\<close>, which leaves the array as it was.
\<close>

fun findAndRemoveTask :: "task list \<Rightarrow> string \<Rightarrow> (task \<times> task list) option" where
  "findAndRemoveTask [] tid = None"
| "findAndRemoveTask (Task f sub # ts) tid =
     (if task_id f = tid then Some (Task f sub, ts)
      else case findAndRemoveTask sub tid of
             Some (r, sub') \<Rightarrow> Some (r, Task f sub' # ts)
           | None \<Rightarrow>
               (case findAndRemoveTask ts tid of
                  Some (r, ts') \<Rightarrow> Some (r, Task f sub # ts')
                | None \<Rightarrow> None))"

fun addSubtask :: "task list \<Rightarrow> string \<Rightarrow> task \<Rightarrow> task list option" where
  "addSubtask [] parentId newSubtask = None"
| "addSubtask (Task f sub # ts) parentId newSubtask =
     (if task_id f = parentId then Some (Task f (sub @ [newSubtask]) # ts)
      else case addSubtask sub parentId newSubtask of
             Some sub' \<Rightarrow> Some (Task f sub' # ts)
           | None \<Rightarrow>
               (case addSubtask ts parentId newSubtask of
                  Some ts' \<Rightarrow> Some (Task f sub # ts')
                | None \<Rightarrow> None))"

text \<open>
  \<^verbatim>\<open>handleTaskDrop(e, targetBoardId, targetTaskId = null)\<close>. The arguments are the
  state \<^verbatim>\<open>boards\<close>, the state \<^verbatim>\<open>dragging\<close>, the drag payload read from the event
  (\<open>None\<close> when \<^verbatim>\<open>getData\<close> gives the empty string) and the drop target. The result
  is the state \<^verbatim>\<open>boards\<close> after the handler: the argument itself on every path that
  returns before \<^verbatim>\<open>setBoards\<close>. The working copy
  \<^verbatim>\<open>JSON.parse(JSON.stringify(boards))\<close> has the same value as \<^verbatim>\<open>boards\<close>, so
  edits of it are edits of the value. A target task id that is \<^verbatim>\<open>null\<close> or empty
  is falsy and selects the board-level drop.
\<close>

definition handleTaskDrop ::
  "board list \<Rightarrow> dragData option \<Rightarrow> dragData option \<Rightarrow> string \<Rightarrow> string option \<Rightarrow> board list" where
  "handleTaskDrop boards dragging jsonData targetBoardId targetTaskId =
     (if dragging = None then boards
      else case jsonData of
        None \<Rightarrow> boards
      | Some d \<Rightarrow>
          if targetTaskId = Some (sourceTaskId d) then boards
          else case findIndex (\<lambda>b. board_id b = sourceBoardId d) boards of
            None \<Rightarrow> boards
          | Some sourceBoardIndex \<Rightarrow>
              (case findAndRemoveTask (tasks (boards ! sourceBoardIndex)) (sourceTaskId d) of
                 None \<Rightarrow> boards
               | Some (taskToMove, rest) \<Rightarrow>
                   let newBoards = boards[sourceBoardIndex := (boards ! sourceBoardIndex)\<lparr>tasks := rest\<rparr>]
                   in case findIndex (\<lambda>b. board_id b = targetBoardId) newBoards of
                        None \<Rightarrow> boards
                      | Some targetBoardIndex \<Rightarrow>
                          if targetTaskId \<noteq> None \<and> targetTaskId \<noteq> Some []
                          then (case addSubtask (tasks (newBoards ! targetBoardIndex)) (the targetTaskId) taskToMove of
                                  None \<Rightarrow> newBoards
                                | Some ts' \<Rightarrow> newBoards[targetBoardIndex := (newBoards ! targetBoardIndex)\<lparr>tasks := ts'\<rparr>])
                          else newBoards[targetBoardIndex :=
                                 (newBoards ! targetBoardIndex)\<lparr>tasks := tasks (newBoards ! targetBoardIndex) @ [taskToMove]\<rparr>]))"

section \<open>Board reordering: \<^verbatim>\<open>handleBoardDrop\<close>\<close>

text \<open>\<^verbatim>\<open>newBoards.forEach((board, index) => { board.order = index; })\<close>, counting
  from \<open>k\<close>.\<close>

fun assignOrder :: "nat \<Rightarrow> board list \<Rightarrow> board list" where
  "assignOrder k [] = []"
| "assignOrder k (b # bs) = b\<lparr>order := int k\<rparr> # assignOrder (Suc k) bs"

text \<open>
  \<^verbatim>\<open>handleBoardDrop(e, targetBoardId)\<close>: the arguments are the state \<^verbatim>\<open>boards\<close>,
  the state \<^verbatim>\<open>draggingBoard\<close> (a board id or \<^verbatim>\<open>null\<close>) and the source id read
  from the event; the result is the state \<^verbatim>\<open>boards\<close> after the handler. Both
  indices are taken before the source is spliced out; the second splice inserts at the
  target's index of that moment.
\<close>

definition handleBoardDrop ::
  "board list \<Rightarrow> string option \<Rightarrow> string \<Rightarrow> string \<Rightarrow> board list" where
  "handleBoardDrop boards draggingBoard sourceId targetBoardId =
     (if draggingBoard = None \<or> draggingBoard = Some [] then boards
      else if sourceId = [] \<or> sourceId = targetBoardId then boards
      else case findIndex (\<lambda>b. board_id b = sourceId) boards of
        None \<Rightarrow> boards
      | Some draggedBoardIndex \<Rightarrow>
          (case findIndex (\<lambda>b. board_id b = targetBoardId) boards of
             None \<Rightarrow> boards
           | Some targetBoardIndex \<Rightarrow>
               assignOrder 0
                 (splice_insert (splice_remove1 boards (int draggedBoardIndex))
                    targetBoardIndex (boards ! draggedBoardIndex))))"


section \<open>Board operations\<close>

definition randomBoardColors :: "string list" where
  "randomBoardColors =
     [''bg-red-500'', ''bg-orange-500'', ''bg-amber-500'', ''bg-yellow-500'', ''bg-lime-500'',
      ''bg-green-500'', ''bg-emerald-500'', ''bg-teal-500'', ''bg-cyan-500'', ''bg-sky-500'',
      ''bg-blue-500'', ''bg-indigo-500'', ''bg-violet-500'', ''bg-purple-500'', ''bg-fuchsia-500'',
      ''bg-pink-500'', ''bg-rose-500'', ''bg-gray-500'', ''bg-slate-500'', ''bg-zinc-500'']"

text \<open>\<^verbatim>\<open>addNewBoard\<close>: \<open>now\<close> is the decimal text of \<^verbatim>\<open>Date.now()\<close> and \<open>r\<close> the
  random draw, reduced to an index of the palette as
  \<^verbatim>\<open>Math.floor(Math.random() * randomBoardColors.length)\<close> is.\<close>

definition addNewBoard :: "board list \<Rightarrow> string \<Rightarrow> nat \<Rightarrow> board list" where
  "addNewBoard boards now r =
     boards @ [\<lparr>board_id = ''board-'' @ now, board_title = ''New Board'',
                color = randomBoardColors ! (r mod length randomBoardColors),
                order = int (length boards), tasks = []\<rparr>]"

text \<open>\<^verbatim>\<open>deleteBoard\<close>: \<open>confirmed\<close> is the answer of \<^verbatim>\<open>window.confirm\<close>.\<close>

definition deleteBoard :: "board list \<Rightarrow> bool \<Rightarrow> string \<Rightarrow> board list" where
  "deleteBoard boards confirmed boardId =
     (if confirmed then filter (\<lambda>b. board_id b \<noteq> boardId) boards else boards)"

definition updateBoardTitle :: "board list \<Rightarrow> string \<Rightarrow> string \<Rightarrow> board list" where
  "updateBoardTitle boards boardId newTitle =
     (case findIndex (\<lambda>b. board_id b = boardId) boards of
        None \<Rightarrow> boards
      | Some boardIndex \<Rightarrow> boards[boardIndex := (boards ! boardIndex)\<lparr>board_title := newTitle\<rparr>])"

section \<open>Task operations\<close>

text \<open>
  Every task operation looks the board up with \<^verbatim>\<open>findIndex\<close> and, when it is there,
  runs a recursive helper on \<^verbatim>\<open>newBoards[boardIndex].tasks\<close>; the helper edits that
  array, or a task inside it, in place. \<open>inBoard\<close> is that frame: \<open>h\<close> gives the
  array as the helper leaves it, \<open>None\<close> when the helper returns \<^verbatim>\<open>false\<close> and has
  touched nothing.
\<close>

definition inBoard :: "board list \<Rightarrow> string \<Rightarrow> (task list \<Rightarrow> task list option) \<Rightarrow> board list" where
  "inBoard boards boardId h =
     (case findIndex (\<lambda>b. board_id b = boardId) boards of
        None \<Rightarrow> boards
      | Some boardIndex \<Rightarrow>
          (case h (tasks (boards ! boardIndex)) of
             None \<Rightarrow> boards
           | Some ts' \<Rightarrow> boards[boardIndex := (boards ! boardIndex)\<lparr>tasks := ts'\<rparr>]))"

text \<open>\<^verbatim>\<open>addNewTask\<close>: \<open>now\<close> is the decimal text of \<^verbatim>\<open>Date.now()\<close>.\<close>

definition newTask :: "string \<Rightarrow> task" where
  "newTask now =
     Task \<lparr>task_id = ''task-'' @ now, task_title = ''New Task'',
           description = ''Add description here'', dueDate = [], priority = ''medium'',
           tags = [], content = []\<rparr> []"

definition addNewTask :: "board list \<Rightarrow> string \<Rightarrow> string \<Rightarrow> board list" where
  "addNewTask boards boardId now = inBoard boards boardId (\<lambda>ts. Some (ts @ [newTask now]))"

fun removeTask :: "task list \<Rightarrow> string \<Rightarrow> task list option" where
  "removeTask [] tid = None"
| "removeTask (Task f sub # ts) tid =
     (if task_id f = tid then Some ts
      else case removeTask sub tid of
             Some sub' \<Rightarrow> Some (Task f sub' # ts)
           | None \<Rightarrow>
               (case removeTask ts tid of
                  Some ts' \<Rightarrow> Some (Task f sub # ts')
                | None \<Rightarrow> None))"

definition deleteTask :: "board list \<Rightarrow> string \<Rightarrow> string \<Rightarrow> board list" where
  "deleteTask boards boardId tid = inBoard boards boardId (\<lambda>ts. removeTask ts tid)"

fun updateTitle :: "task list \<Rightarrow> string \<Rightarrow> string \<Rightarrow> task list option" where
  "updateTitle [] targetId newTitle = None"
| "updateTitle (Task f sub # ts) targetId newTitle =
     (if task_id f = targetId then Some (Task (f\<lparr>task_title := newTitle\<rparr>) sub # ts)
      else case updateTitle sub targetId newTitle of
             Some sub' \<Rightarrow> Some (Task f sub' # ts)
           | None \<Rightarrow>
               (case updateTitle ts targetId newTitle of
                  Some ts' \<Rightarrow> Some (Task f sub # ts')
                | None \<Rightarrow> None))"

definition updateTaskTitle :: "board list \<Rightarrow> string \<Rightarrow> string \<Rightarrow> string \<Rightarrow> board list" where
  "updateTaskTitle boards boardId tid newTitle =
     inBoard boards boardId (\<lambda>ts. updateTitle ts tid newTitle)"

fun updateTaskDescription :: "task list \<Rightarrow> string \<Rightarrow> string \<Rightarrow> task list option" where
  "updateTaskDescription [] targetId newDescription = None"
| "updateTaskDescription (Task f sub # ts) targetId newDescription =
     (if task_id f = targetId then Some (Task (f\<lparr>description := newDescription\<rparr>) sub # ts)
      else case updateTaskDescription sub targetId newDescription of
             Some sub' \<Rightarrow> Some (Task f sub' # ts)
           | None \<Rightarrow>
               (case updateTaskDescription ts targetId newDescription of
                  Some ts' \<Rightarrow> Some (Task f sub # ts')
                | None \<Rightarrow> None))"

text \<open>The \<^verbatim>\<open>onChange\<close> handler of the description field.\<close>

definition changeDescription :: "board list \<Rightarrow> string \<Rightarrow> string \<Rightarrow> string \<Rightarrow> board list" where
  "changeDescription boards boardId tid newDescription =
     inBoard boards boardId (\<lambda>ts. updateTaskDescription ts tid newDescription)"

fun updateTaskDate :: "task list \<Rightarrow> string \<Rightarrow> string \<Rightarrow> task list option" where
  "updateTaskDate [] targetId newDate = None"
| "updateTaskDate (Task f sub # ts) targetId newDate =
     (if task_id f = targetId then Some (Task (f\<lparr>dueDate := newDate\<rparr>) sub # ts)
      else case updateTaskDate sub targetId newDate of
             Some sub' \<Rightarrow> Some (Task f sub' # ts)
           | None \<Rightarrow>
               (case updateTaskDate ts targetId newDate of
                  Some ts' \<Rightarrow> Some (Task f sub # ts')
                | None \<Rightarrow> None))"

definition setDueDate :: "board list \<Rightarrow> string \<Rightarrow> string \<Rightarrow> string \<Rightarrow> board list" where
  "setDueDate boards tid boardId date = inBoard boards boardId (\<lambda>ts. updateTaskDate ts tid date)"

fun updatePriority :: "task list \<Rightarrow> string \<Rightarrow> string \<Rightarrow> task list option" where
  "updatePriority [] targetId newPriority = None"
| "updatePriority (Task f sub # ts) targetId newPriority =
     (if task_id f = targetId then Some (Task (f\<lparr>priority := newPriority\<rparr>) sub # ts)
      else case updatePriority sub targetId newPriority of
             Some sub' \<Rightarrow> Some (Task f sub' # ts)
           | None \<Rightarrow>
               (case updatePriority ts targetId newPriority of
                  Some ts' \<Rightarrow> Some (Task f sub # ts')
                | None \<Rightarrow> None))"

definition updateTaskPriority :: "board list \<Rightarrow> string \<Rightarrow> string \<Rightarrow> string \<Rightarrow> board list" where
  "updateTaskPriority boards boardId tid newPriority =
     inBoard boards boardId (\<lambda>ts. updatePriority ts tid newPriority)"

section \<open>Content items\<close>

definition newContentItem :: "string \<Rightarrow> content_item" where
  "newContentItem contentType =
     \<lparr>item_type = contentType,
      item_text = (if contentType = ''bullet'' then ''New bullet point'' else ''New numbered item'')\<rparr>"

fun addContentToTask :: "task list \<Rightarrow> string \<Rightarrow> string \<Rightarrow> task list option" where
  "addContentToTask [] targetId contentType = None"
| "addContentToTask (Task f sub # ts) targetId contentType =
     (if task_id f = targetId
      then Some (Task (f\<lparr>content := content f @ [newContentItem contentType]\<rparr>) sub # ts)
      else case addContentToTask sub targetId contentType of
             Some sub' \<Rightarrow> Some (Task f sub' # ts)
           | None \<Rightarrow>
               (case addContentToTask ts targetId contentType of
                  Some ts' \<Rightarrow> Some (Task f sub # ts')
                | None \<Rightarrow> None))"

definition addContentItem :: "board list \<Rightarrow> string \<Rightarrow> string \<Rightarrow> string \<Rightarrow> board list" where
  "addContentItem boards tid boardId contentType =
     inBoard boards boardId (\<lambda>ts. addContentToTask ts tid contentType)"

text \<open>\<^verbatim>\<open>tasks[i].content.splice(index, 1)\<close>: no bounds check of its own, so the
  index goes through the relative start of \<^verbatim>\<open>splice\<close>.\<close>

fun removeContentFromTask :: "task list \<Rightarrow> string \<Rightarrow> int \<Rightarrow> task list option" where
  "removeContentFromTask [] targetId index = None"
| "removeContentFromTask (Task f sub # ts) targetId index =
     (if task_id f = targetId
      then Some (Task (f\<lparr>content := splice_remove1 (content f) index\<rparr>) sub # ts)
      else case removeContentFromTask sub targetId index of
             Some sub' \<Rightarrow> Some (Task f sub' # ts)
           | None \<Rightarrow>
               (case removeContentFromTask ts targetId index of
                  Some ts' \<Rightarrow> Some (Task f sub # ts')
                | None \<Rightarrow> None))"

definition deleteContentItem :: "board list \<Rightarrow> string \<Rightarrow> string \<Rightarrow> int \<Rightarrow> board list" where
  "deleteContentItem boards tid boardId contentIndex =
     inBoard boards boardId (\<lambda>ts. removeContentFromTask ts tid contentIndex)"

text \<open>
  \<^verbatim>\<open>tasks[i].content[index].text = newText\<close>: for an index that is not an index of
  the array, \<^verbatim>\<open>content[index]\<close> is \<^verbatim>\<open>undefined\<close> and the assignment throws a
  \<^verbatim>\<open>TypeError\<close>. Nothing catches it: it leaves the recursion and the \<^verbatim>\<open>onChange\<close>
  handler, before \<^verbatim>\<open>setBoards\<close>.
\<close>

datatype js_error = TypeError

fun updateTaskContent ::
  "task list \<Rightarrow> string \<Rightarrow> int \<Rightarrow> string \<Rightarrow> js_error + task list option" where
  "updateTaskContent [] targetId index newText = Inr None"
| "updateTaskContent (Task f sub # ts) targetId index newText =
     (if task_id f = targetId
      then (if 0 \<le> index \<and> index < int (length (content f))
            then Inr (Some (Task (f\<lparr>content := (content f)[nat index :=
                              (content f ! nat index)\<lparr>item_text := newText\<rparr>]\<rparr>) sub # ts))
            else Inl TypeError)
      else case updateTaskContent sub targetId index newText of
             Inl e \<Rightarrow> Inl e
           | Inr (Some sub') \<Rightarrow> Inr (Some (Task f sub' # ts))
           | Inr None \<Rightarrow>
               (case updateTaskContent ts targetId index newText of
                  Inl e \<Rightarrow> Inl e
                | Inr (Some ts') \<Rightarrow> Inr (Some (Task f sub # ts'))
                | Inr None \<Rightarrow> Inr None))"

text \<open>The \<^verbatim>\<open>onChange\<close> handler of a content item's text field. The result is the
  exception that escapes the handler, or the state \<^verbatim>\<open>boards\<close> it commits.\<close>

definition changeContentItem ::
  "board list \<Rightarrow> string \<Rightarrow> string \<Rightarrow> int \<Rightarrow> string \<Rightarrow> js_error + board list" where
  "changeContentItem boards boardId tid index newText =
     (case findIndex (\<lambda>b. board_id b = boardId) boards of
        None \<Rightarrow> Inr boards
      | Some boardIndex \<Rightarrow>
          (case updateTaskContent (tasks (boards ! boardIndex)) tid index newText of
             Inl e \<Rightarrow> Inl e
           | Inr None \<Rightarrow> Inr boards
           | Inr (Some ts') \<Rightarrow> Inr (boards[boardIndex := (boards ! boardIndex)\<lparr>tasks := ts'\<rparr>])))"

section \<open>Observations on a tree\<close>

text \<open>The ids of a task forest in depth-first pre-order, through every level of
  \<^verbatim>\<open>subtasks\<close>, and the ids of all tasks of all boards.\<close>

fun forest_ids :: "task list \<Rightarrow> string list" where
  "forest_ids [] = []"
| "forest_ids (Task f sub # ts) = task_id f # forest_ids sub @ forest_ids ts"

definition tree_ids :: "board list \<Rightarrow> string list" where
  "tree_ids boards = concat (map (\<lambda>b. forest_ids (tasks b)) boards)"

text \<open>What a board is apart from its tasks.\<close>

definition board_frame :: "board \<Rightarrow> string \<times> string \<times> string \<times> int" where
  "board_frame b = (board_id b, board_title b, color b, order b)"

text \<open>The state \<^verbatim>\<open>boards\<close> after a handler that may throw: the exception leaves the
  handler before \<^verbatim>\<open>setBoards\<close>, so the state stays what it was.\<close>

definition stateAfter :: "board list \<Rightarrow> js_error + board list \<Rightarrow> board list" where
  "stateAfter boards r = (case r of Inl e \<Rightarrow> boards | Inr bs \<Rightarrow> bs)"

text \<open>Sample data: a task as \<^verbatim>\<open>addNewTask\<close> makes it, a board as
  \<^verbatim>\<open>addNewBoard\<close> makes it, and a drag payload.\<close>

definition sampleTask :: "string \<Rightarrow> task list \<Rightarrow> task" where
  "sampleTask i sub =
     Task \<lparr>task_id = i, task_title = ''New Task'', description = ''Add description here'',
           dueDate = [], priority = ''medium'', tags = [], content = []\<rparr> sub"

definition sampleBoard :: "string \<Rightarrow> int \<Rightarrow> task list \<Rightarrow> board" where
  "sampleBoard i k ts =
     \<lparr>board_id = i, board_title = ''New Board'', color = ''bg-red-500'', order = k, tasks = ts\<rparr>"

definition payload :: "string \<Rightarrow> string \<Rightarrow> dragData" where
  "payload b t = \<lparr>sourceBoardId = b, sourceTaskId = t, isSubtask = False, parentTaskId = None\<rparr>"

text \<open>What a board is apart from its order.\<close>

definition board_content :: "board \<Rightarrow> string \<times> string \<times> string \<times> task list" where
  "board_content b = (board_id b, board_title b, color b, tasks b)"

text \<open>A board drop that passes every guard of \<^verbatim>\<open>handleBoardDrop\<close>: a board drag is
  in progress, the source id is not empty and is not the target id, and both ids are ids
  of boards.\<close>

definition boardMoves :: "board list \<Rightarrow> string option \<Rightarrow> string \<Rightarrow> string \<Rightarrow> bool" where
  "boardMoves boards draggingBoard sourceId targetBoardId \<longleftrightarrow>
     draggingBoard \<noteq> None \<and> draggingBoard \<noteq> Some [] \<and> sourceId \<noteq> [] \<and> sourceId \<noteq> targetBoardId
     \<and> findIndex (\<lambda>b. board_id b = sourceId) boards \<noteq> None
     \<and> findIndex (\<lambda>b. board_id b = targetBoardId) boards \<noteq> None"

text \<open>
  The reordering as the specification words it, for comparison with \<^verbatim>\<open>handleBoardDrop\<close>:
  remove the source board from its position, reinsert it immediately before the target
  board, reassign \<^verbatim>\<open>order = index\<close>; nothing happens when the two ids are equal or one
  of them is missing.
\<close>

definition reorderBoards_spec :: "board list \<Rightarrow> string \<Rightarrow> string \<Rightarrow> board list" where
  "reorderBoards_spec boards sourceId targetBoardId =
     (if sourceId = targetBoardId then boards
      else case findIndex (\<lambda>b. board_id b = sourceId) boards of
        None \<Rightarrow> boards
      | Some i \<Rightarrow>
          (let rest = take i boards @ drop (Suc i) boards
           in case findIndex (\<lambda>b. board_id b = targetBoardId) rest of
                None \<Rightarrow> boards
              | Some j \<Rightarrow> assignOrder 0 (take j rest @ boards ! i # drop j rest)))"

text \<open>Three empty boards with the ids and orders of the built-in default tree.\<close>

definition threeBoards :: "board list" where
  "threeBoards =
     [sampleBoard ''board-1'' 0 [], sampleBoard ''board-2'' 1 [], sampleBoard ''board-3'' 2 []]"

text \<open>The first task with a given id in a forest, in the order in which every recursive
  helper of the source meets the tasks, and the number of tasks below it.\<close>

fun findTask :: "task list \<Rightarrow> string \<Rightarrow> task option" where
  "findTask [] tid = None"
| "findTask (Task f sub # ts) tid =
     (if task_id f = tid then Some (Task f sub)
      else case findTask sub tid of
             Some t \<Rightarrow> Some t
           | None \<Rightarrow> findTask ts tid)"

definition subtreeSize :: "task list \<Rightarrow> string \<Rightarrow> nat" where
  "subtreeSize ts tid =
     (case findTask ts tid of None \<Rightarrow> 0 | Some t \<Rightarrow> length (forest_ids (subtasks t)))"


text \<open>Sample data: a board whose task A has a subtask B with a subtask C, next to a
  task D; and a board whose task has two content items.\<close>

definition nestedBoards :: "board list" where
  "nestedBoards =
     [sampleBoard ''board-1'' 0
        [sampleTask ''A'' [sampleTask ''B'' [sampleTask ''C'' []]], sampleTask ''D'' []]]"



section \<open>Object identity: the array of board references\<close>

text \<open>
  The operations above are functions of the value of \<^verbatim>\<open>boards\<close>. In the source
  \<^verbatim>\<open>boards\<close> is an array of references to board objects: \<^verbatim>\<open>[...boards]\<close> copies the
  array and not the objects, \<^verbatim>\<open>filter\<close> builds a new array of the same objects, and
  \<^verbatim>\<open>JSON.parse(JSON.stringify(boards))\<close> builds new objects throughout. To tell these
  apart the memory is a list of board cells, an address being an index into it. A cell
  holds a board together with the task forest it owns; no operation makes two boards share
  a task (a task is made anew by \<^verbatim>\<open>addNewTask\<close> or copied by \<^verbatim>\<open>handleTaskDrop\<close>), so a
  write to a task is a write to the cell of the one board above it. An array of boards is
  a list of addresses. Each operation takes the memory and the array \<^verbatim>\<open>boards\<close> and
  gives the memory as it leaves it and the array that is the state afterwards: the one it
  passes to \<^verbatim>\<open>setBoards\<close>, or \<^verbatim>\<open>boards\<close> itself where it returns before.
\<close>

text \<open>The boards that an array refers to, read in a memory.\<close>

definition snapshot :: "board list \<Rightarrow> nat list \<Rightarrow> board list" where
  "snapshot heap refs = map (\<lambda>a. heap ! a) refs"

text \<open>The address of the board object that an operation with argument \<^verbatim>\<open>boardId\<close> writes to.\<close>

definition boardRef :: "board list \<Rightarrow> nat list \<Rightarrow> string \<Rightarrow> nat option" where
  "boardRef heap boards boardId =
     map_option (\<lambda>i. boards ! i) (findIndex (\<lambda>a. board_id (heap ! a) = boardId) boards)"

text \<open>The frame of the task operations, on references: \<^verbatim>\<open>newBoards = [...boards]\<close>
  holds the addresses that \<^verbatim>\<open>boards\<close> holds, and the helper writes into the object found
  through it.\<close>

definition inBoard_h ::
  "board list \<Rightarrow> nat list \<Rightarrow> string \<Rightarrow> (task list \<Rightarrow> task list option) \<Rightarrow> board list \<times> nat list" where
  "inBoard_h heap boards boardId h =
     (let newBoards = boards
      in case findIndex (\<lambda>a. board_id (heap ! a) = boardId) newBoards of
           None \<Rightarrow> (heap, newBoards)
         | Some boardIndex \<Rightarrow>
             (case h (tasks (heap ! (newBoards ! boardIndex))) of
                None \<Rightarrow> (heap, newBoards)
              | Some ts' \<Rightarrow>
                  (heap[newBoards ! boardIndex := (heap ! (newBoards ! boardIndex))\<lparr>tasks := ts'\<rparr>],
                   newBoards)))"

definition addNewTask_h :: "board list \<Rightarrow> nat list \<Rightarrow> string \<Rightarrow> string \<Rightarrow> board list \<times> nat list" where
  "addNewTask_h heap boards boardId now = inBoard_h heap boards boardId (\<lambda>ts. Some (ts @ [newTask now]))"

definition deleteTask_h :: "board list \<Rightarrow> nat list \<Rightarrow> string \<Rightarrow> string \<Rightarrow> board list \<times> nat list" where
  "deleteTask_h heap boards boardId tid = inBoard_h heap boards boardId (\<lambda>ts. removeTask ts tid)"

definition updateTaskTitle_h ::
  "board list \<Rightarrow> nat list \<Rightarrow> string \<Rightarrow> string \<Rightarrow> string \<Rightarrow> board list \<times> nat list" where
  "updateTaskTitle_h heap boards boardId tid newTitle =
     inBoard_h heap boards boardId (\<lambda>ts. updateTitle ts tid newTitle)"

definition changeDescription_h ::
  "board list \<Rightarrow> nat list \<Rightarrow> string \<Rightarrow> string \<Rightarrow> string \<Rightarrow> board list \<times> nat list" where
  "changeDescription_h heap boards boardId tid newDescription =
     inBoard_h heap boards boardId (\<lambda>ts. updateTaskDescription ts tid newDescription)"

definition updateTaskPriority_h ::
  "board list \<Rightarrow> nat list \<Rightarrow> string \<Rightarrow> string \<Rightarrow> string \<Rightarrow> board list \<times> nat list" where
  "updateTaskPriority_h heap boards boardId tid newPriority =
     inBoard_h heap boards boardId (\<lambda>ts. updatePriority ts tid newPriority)"

definition setDueDate_h ::
  "board list \<Rightarrow> nat list \<Rightarrow> string \<Rightarrow> string \<Rightarrow> string \<Rightarrow> board list \<times> nat list" where
  "setDueDate_h heap boards tid boardId date =
     inBoard_h heap boards boardId (\<lambda>ts. updateTaskDate ts tid date)"

definition addContentItem_h ::
  "board list \<Rightarrow> nat list \<Rightarrow> string \<Rightarrow> string \<Rightarrow> string \<Rightarrow> board list \<times> nat list" where
  "addContentItem_h heap boards tid boardId contentType =
     inBoard_h heap boards boardId (\<lambda>ts. addContentToTask ts tid contentType)"

definition deleteContentItem_h ::
  "board list \<Rightarrow> nat list \<Rightarrow> string \<Rightarrow> string \<Rightarrow> int \<Rightarrow> board list \<times> nat list" where
  "deleteContentItem_h heap boards tid boardId contentIndex =
     inBoard_h heap boards boardId (\<lambda>ts. removeContentFromTask ts tid contentIndex)"

definition changeContentItem_h ::
  "board list \<Rightarrow> nat list \<Rightarrow> string \<Rightarrow> string \<Rightarrow> int \<Rightarrow> string \<Rightarrow> js_error + board list \<times> nat list" where
  "changeContentItem_h heap boards boardId tid index newText =
     (let newBoards = boards
      in case findIndex (\<lambda>a. board_id (heap ! a) = boardId) newBoards of
           None \<Rightarrow> Inr (heap, newBoards)
         | Some boardIndex \<Rightarrow>
             (case updateTaskContent (tasks (heap ! (newBoards ! boardIndex))) tid index newText of
                Inl e \<Rightarrow> Inl e
              | Inr None \<Rightarrow> Inr (heap, newBoards)
              | Inr (Some ts') \<Rightarrow>
                  Inr (heap[newBoards ! boardIndex := (heap ! (newBoards ! boardIndex))\<lparr>tasks := ts'\<rparr>],
                       newBoards)))"

definition updateBoardTitle_h ::
  "board list \<Rightarrow> nat list \<Rightarrow> string \<Rightarrow> string \<Rightarrow> board list \<times> nat list" where
  "updateBoardTitle_h heap boards boardId newTitle =
     (let newBoards = boards
      in case findIndex (\<lambda>a. board_id (heap ! a) = boardId) newBoards of
           None \<Rightarrow> (heap, newBoards)
         | Some boardIndex \<Rightarrow>
             (heap[newBoards ! boardIndex := (heap ! (newBoards ! boardIndex))\<lparr>board_title := newTitle\<rparr>],
              newBoards))"

text \<open>\<^verbatim>\<open>[...boards, newBoard]\<close>: one new object, at the first free address.\<close>

definition addNewBoard_h :: "board list \<Rightarrow> nat list \<Rightarrow> string \<Rightarrow> nat \<Rightarrow> board list \<times> nat list" where
  "addNewBoard_h heap boards now r =
     (heap @ [\<lparr>board_id = ''board-'' @ now, board_title = ''New Board'',
               color = randomBoardColors ! (r mod length randomBoardColors),
               order = int (length boards), tasks = []\<rparr>],
      boards @ [length heap])"

text \<open>\<^verbatim>\<open>boards.filter(...)\<close>: a new array of some of the same objects.\<close>

definition deleteBoard_h :: "board list \<Rightarrow> nat list \<Rightarrow> bool \<Rightarrow> string \<Rightarrow> board list \<times> nat list" where
  "deleteBoard_h heap boards confirmed boardId =
     (if confirmed then (heap, filter (\<lambda>a. board_id (heap ! a) \<noteq> boardId) boards)
      else (heap, boards))"

text \<open>\<^verbatim>\<open>newBoards.forEach((board, index) => { board.order = index; })\<close> writes
  into the objects that the array refers to.\<close>

fun assignOrder_h :: "board list \<Rightarrow> nat \<Rightarrow> nat list \<Rightarrow> board list" where
  "assignOrder_h heap k [] = heap"
| "assignOrder_h heap k (a # as) = assignOrder_h (heap[a := (heap ! a)\<lparr>order := int k\<rparr>]) (Suc k) as"

definition handleBoardDrop_h ::
  "board list \<Rightarrow> nat list \<Rightarrow> string option \<Rightarrow> string \<Rightarrow> string \<Rightarrow> board list \<times> nat list" where
  "handleBoardDrop_h heap boards draggingBoard sourceId targetBoardId =
     (if draggingBoard = None \<or> draggingBoard = Some [] then (heap, boards)
      else if sourceId = [] \<or> sourceId = targetBoardId then (heap, boards)
      else case findIndex (\<lambda>a. board_id (heap ! a) = sourceId) boards of
        None \<Rightarrow> (heap, boards)
      | Some draggedBoardIndex \<Rightarrow>
          (case findIndex (\<lambda>a. board_id (heap ! a) = targetBoardId) boards of
             None \<Rightarrow> (heap, boards)
           | Some targetBoardIndex \<Rightarrow>
               (let newBoards = splice_insert (splice_remove1 boards (int draggedBoardIndex))
                                  targetBoardIndex (boards ! draggedBoardIndex)
                in (assignOrder_h heap 0 newBoards, newBoards))))"

text \<open>\<^verbatim>\<open>handleTaskDrop\<close> works on \<^verbatim>\<open>JSON.parse(JSON.stringify(boards))\<close>: a copy of
  every board at new addresses, and an array of those.\<close>

definition handleTaskDrop_h ::
  "board list \<Rightarrow> nat list \<Rightarrow> dragData option \<Rightarrow> dragData option \<Rightarrow> string \<Rightarrow> string option
     \<Rightarrow> board list \<times> nat list" where
  "handleTaskDrop_h heap boards dragging jsonData targetBoardId targetTaskId =
     (if dragging = None then (heap, boards)
      else case jsonData of
        None \<Rightarrow> (heap, boards)
      | Some d \<Rightarrow>
          if targetTaskId = Some (sourceTaskId d) then (heap, boards)
          else
            let heap1 = heap @ map (\<lambda>a. heap ! a) boards;
                newBoards = [length heap..<length heap + length boards]
            in case findIndex (\<lambda>a. board_id (heap1 ! a) = sourceBoardId d) newBoards of
                 None \<Rightarrow> (heap1, boards)
               | Some sourceBoardIndex \<Rightarrow>
                   (case findAndRemoveTask (tasks (heap1 ! (newBoards ! sourceBoardIndex))) (sourceTaskId d) of
                      None \<Rightarrow> (heap1, boards)
                    | Some (taskToMove, rest) \<Rightarrow>
                        let heap2 = heap1[newBoards ! sourceBoardIndex :=
                                      (heap1 ! (newBoards ! sourceBoardIndex))\<lparr>tasks := rest\<rparr>]
                        in case findIndex (\<lambda>a. board_id (heap2 ! a) = targetBoardId) newBoards of
                             None \<Rightarrow> (heap2, boards)
                           | Some targetBoardIndex \<Rightarrow>
                               if targetTaskId \<noteq> None \<and> targetTaskId \<noteq> Some []
                               then (case addSubtask (tasks (heap2 ! (newBoards ! targetBoardIndex)))
                                            (the targetTaskId) taskToMove of
                                       None \<Rightarrow> (heap2, newBoards)
                                     | Some ts' \<Rightarrow>
                                         (heap2[newBoards ! targetBoardIndex :=
                                            (heap2 ! (newBoards ! targetBoardIndex))\<lparr>tasks := ts'\<rparr>],
                                          newBoards))
                               else (heap2[newBoards ! targetBoardIndex :=
                                       (heap2 ! (newBoards ! targetBoardIndex))
                                         \<lparr>tasks := tasks (heap2 ! (newBoards ! targetBoardIndex)) @ [taskToMove]\<rparr>],
                                     newBoards)))"

text \<open>A memory that differs from another at most in the \<^verbatim>\<open>tasks\<close> of the board object
  that \<^verbatim>\<open>boardId\<close> selects.\<close>

definition writesTasksOf :: "board list \<Rightarrow> nat list \<Rightarrow> string \<Rightarrow> board list \<Rightarrow> bool" where
  "writesTasksOf heap boards boardId heap' \<longleftrightarrow>
     heap' = (case boardRef heap boards boardId of
                None \<Rightarrow> heap
              | Some a \<Rightarrow> heap[a := (heap ! a)\<lparr>tasks := tasks (heap' ! a)\<rparr>])"

text \<open>The memory and the array after a handler that may throw.\<close>

definition memoryAfter ::
  "board list \<Rightarrow> nat list \<Rightarrow> js_error + board list \<times> nat list \<Rightarrow> board list \<times> nat list" where
  "memoryAfter heap boards r = (case r of Inl e \<Rightarrow> (heap, boards) | Inr hb \<Rightarrow> hb)"

text \<open>The state as a value: the array that is the state, read in the memory. An array is
  well formed in a memory when its addresses are different and allocated. A sample memory
  of one board with one task.\<close>

definition committed :: "board list \<times> nat list \<Rightarrow> board list" where
  "committed hb = snapshot (fst hb) (snd hb)"

definition wellFormed :: "board list \<Rightarrow> nat list \<Rightarrow> bool" where
  "wellFormed heap refs \<longleftrightarrow> distinct refs \<and> list_all (\<lambda>a. a < length heap) refs"

definition oneTaskHeap :: "board list" where
  "oneTaskHeap = [sampleBoard ''board-1'' 0 [sampleTask ''task-1'' []]]"

section \<open>Persistence: \<^verbatim>\<open>JSON\<close> and \<^verbatim>\<open>localStorage\<close> (src/storage.js)\<close>


text \<open>\<^verbatim>\<open>JSON.stringify\<close> on a string: the quotation mark, the backslash and the control
  characters below U+0020 are escaped, the latter by their short form where there is one
  and as \<^verbatim>\<open>\u00XX\<close> otherwise; every other character stands for itself.\<close>

definition dquote :: char where "dquote = CHR 0x22"

















text \<open>\<^verbatim>\<open>JSON.parse\<close>: white space may stand before and after every token. The first
  argument bounds the nesting depth and the number of elements read, so that the recursion
  is on it; \<open>JSON_parse\<close> starts with more than the length of the text, and a text
  with anything but white space after the value is a syntax error (\<open>None\<close>).\<close>

definition isSpace :: "char \<Rightarrow> bool" where
  "isSpace c \<longleftrightarrow> c = CHR '' '' \<or> c = CHR 0x09 \<or> c = CHR 0x0A \<or> c = CHR 0x0D"





definition delimited :: "string \<Rightarrow> bool" where
  "delimited r \<longleftrightarrow> r = [] \<or> hd r \<in> set '',]}''"








section \<open>Supporting facts\<close>

lemma findIndex_Some:
  "findIndex P xs = Some i \<Longrightarrow> i < length xs \<and> P (xs ! i)"
  by (induction xs arbitrary: i) (auto split: if_splits)

lemma findIndex_first:
  "findIndex P xs = Some i \<Longrightarrow> j < i \<Longrightarrow> \<not> P (xs ! j)"
proof (induction xs arbitrary: i j)
  case Nil
  then show ?case by simp
next
  case (Cons x xs)
  then show ?case by (cases j) (auto split: if_splits)
qed

lemma findIndex_None: "findIndex P xs = None \<longleftrightarrow> (\<forall>x\<in>set xs. \<not> P x)"
  by (induction xs) auto

lemma frame_tasks_update [simp]: "board_frame (b\<lparr>tasks := ts\<rparr>) = board_frame b"
  by (simp add: board_frame_def)

lemma frame_list_update:
  "i < length bs \<Longrightarrow> map board_frame (bs[i := (bs ! i)\<lparr>tasks := ts\<rparr>]) = map board_frame bs"
  by (simp add: map_update list_update_same_conv)

lemma frame_inBoard: "map board_frame (inBoard boards boardId h) = map board_frame boards"
  by (auto simp: inBoard_def frame_list_update dest: findIndex_Some split: option.splits)

lemma frame_handleTaskDrop:
  "map board_frame (handleTaskDrop boards dragging jsonData targetBoardId targetTaskId)
     = map board_frame boards"
  unfolding handleTaskDrop_def Let_def
  by (auto simp: frame_list_update dest!: findIndex_Some split: option.splits)

lemma frame_changeContentItem:
  "map board_frame (stateAfter boards (changeContentItem boards boardId tid index newText))
     = map board_frame boards"
  by (auto simp: changeContentItem_def stateAfter_def frame_list_update
      dest: findIndex_Some split: option.splits sum.splits)

lemma findAndRemoveTask_None:
  "tid \<notin> set (forest_ids ts) \<Longrightarrow> findAndRemoveTask ts tid = None"
  by (induction ts tid rule: findAndRemoveTask.induct) auto

lemmas sample_defs = sampleTask_def sampleBoard_def payload_def

section \<open>Task relocation\<close>

text \<open>
  The paths of \<^verbatim>\<open>handleTaskDrop\<close> that return before \<^verbatim>\<open>setBoards\<close>: no drag in
  progress, no payload, a drop of a task on itself, a source board that is not there, a
  source task that is not in the source board, a target board that is not there. On each
  the state stays the snapshot it was.
\<close>

lemma handleTaskDrop_aborts:
  "handleTaskDrop boards None jsonData targetBoardId targetTaskId = boards"
  "handleTaskDrop boards dragging None targetBoardId targetTaskId = boards"
  "handleTaskDrop boards dragging (Some d) targetBoardId (Some (sourceTaskId d)) = boards"
  "findIndex (\<lambda>b. board_id b = sourceBoardId d) boards = None \<Longrightarrow>
     handleTaskDrop boards dragging (Some d) targetBoardId targetTaskId = boards"
  "findIndex (\<lambda>b. board_id b = sourceBoardId d) boards = Some i \<Longrightarrow>
   findAndRemoveTask (tasks (boards ! i)) (sourceTaskId d) = None \<Longrightarrow>
     handleTaskDrop boards dragging (Some d) targetBoardId targetTaskId = boards"
  "findIndex (\<lambda>b. board_id b = targetBoardId) boards = None \<Longrightarrow>
     handleTaskDrop boards dragging (Some d) targetBoardId targetTaskId = boards"
proof -
  show "handleTaskDrop boards None jsonData targetBoardId targetTaskId = boards"
    by (simp add: handleTaskDrop_def)
  show "handleTaskDrop boards dragging None targetBoardId targetTaskId = boards"
    by (simp add: handleTaskDrop_def)
  show "handleTaskDrop boards dragging (Some d) targetBoardId (Some (sourceTaskId d)) = boards"
    by (simp add: handleTaskDrop_def)
  show "findIndex (\<lambda>b. board_id b = sourceBoardId d) boards = None \<Longrightarrow>
     handleTaskDrop boards dragging (Some d) targetBoardId targetTaskId = boards"
    by (simp add: handleTaskDrop_def)
  show "findIndex (\<lambda>b. board_id b = sourceBoardId d) boards = Some i \<Longrightarrow>
   findAndRemoveTask (tasks (boards ! i)) (sourceTaskId d) = None \<Longrightarrow>
     handleTaskDrop boards dragging (Some d) targetBoardId targetTaskId = boards"
    by (simp add: handleTaskDrop_def)
  show "handleTaskDrop boards dragging (Some d) targetBoardId targetTaskId = boards"
    if none: "findIndex (\<lambda>b. board_id b = targetBoardId) boards = None"
  proof -
    have "findIndex (\<lambda>b. board_id b = targetBoardId) (boards[i := (boards ! i)\<lparr>tasks := r\<rparr>]) = None"
      for i r
    proof -
      have "\<forall>x\<in>set boards. board_id x \<noteq> targetBoardId"
        using none by (simp add: findIndex_None)
      then have "\<forall>x\<in>set (boards[i := (boards ! i)\<lparr>tasks := r\<rparr>]). board_id x \<noteq> targetBoardId"
        by (cases "i < length boards")
           (auto simp: set_conv_nth nth_list_update)
      then show ?thesis by (simp add: findIndex_None)
    qed
    then show ?thesis
      by (simp add: handleTaskDrop_def Let_def split: option.splits)
  qed
qed

text \<open>
  A drop on a target task that is not found in the target board once the source task is
  out: \<^verbatim>\<open>addSubtask\<close> returns \<^verbatim>\<open>false\<close>, nothing looks at it, and the tree without the
  source task is committed. That is the case of every target inside the subtree of the
  source task, in a board whose task ids are all different.
\<close>

lemma addSubtask_None:
  "parentId \<notin> set (forest_ids ts) \<Longrightarrow> addSubtask ts parentId newSubtask = None"
  by (induction ts parentId newSubtask rule: addSubtask.induct) auto

lemma findAndRemoveTask_ids:
  "findAndRemoveTask ts tid = Some (t, rest) \<Longrightarrow>
     mset (forest_ids ts) = mset (forest_ids rest) + mset (forest_ids [t])
     \<and> task_id (attrs t) = tid"
proof (induction ts tid arbitrary: t rest rule: findAndRemoveTask.induct)
  case (1 tid)
  then show ?case by simp
next
  case (2 f sub ts tid)
  show ?case
  proof (cases "task_id f = tid")
    case True
    with "2.prems" show ?thesis by auto
  next
    case ne: False
    show ?thesis
    proof (cases "findAndRemoveTask sub tid")
      case (Some p)
      obtain r sub' where p: "p = (r, sub')" by (cases p)
      with Some ne "2.prems" have e: "t = r" "rest = Task f sub' # ts" by simp_all
      have "mset (forest_ids sub) = mset (forest_ids sub') + mset (forest_ids [r])
          \<and> task_id (attrs r) = tid"
        using "2.IH"(1) [OF ne] Some p by simp
      then show ?thesis using e by simp
    next
      case None
      then obtain ts' where r: "findAndRemoveTask ts tid = Some (t, ts')" and e: "rest = Task f sub # ts'"
        using ne "2.prems" by (auto split: option.splits)
      have "mset (forest_ids ts) = mset (forest_ids ts') + mset (forest_ids [t])
          \<and> task_id (attrs t) = tid"
        using "2.IH"(2) [OF ne None] r by simp
      then show ?thesis using e by simp
    qed
  qed
qed

lemma findIndex_board_id_map:
  "findIndex (\<lambda>b. board_id b = x) bs = findIndex (\<lambda>y. y = x) (map board_id bs)"
  by (induction bs) auto

lemma findIndex_tasks_update:
  "i < length bs \<Longrightarrow>
     findIndex (\<lambda>b. board_id b = x) (bs[i := (bs ! i)\<lparr>tasks := ts\<rparr>])
       = findIndex (\<lambda>b. board_id b = x) bs"
proof -
  assume "i < length bs"
  then have "map board_id (bs[i := (bs ! i)\<lparr>tasks := ts\<rparr>]) = map board_id bs"
    by (simp add: map_update list_update_same_conv)
  then show ?thesis
    by (simp add: findIndex_board_id_map)
qed

lemma handleTaskDrop_target_not_found:
  assumes i: "findIndex (\<lambda>b. board_id b = sourceBoardId d) boards = Some i"
    and r: "findAndRemoveTask (tasks (boards ! i)) (sourceTaskId d) = Some (taskToMove, rest)"
    and k: "findIndex (\<lambda>b. board_id b = targetBoardId) (boards[i := (boards ! i)\<lparr>tasks := rest\<rparr>]) = Some k"
    and t: "target \<noteq> sourceTaskId d" "target \<noteq> []"
    and n: "target \<notin> set (forest_ids (tasks (boards[i := (boards ! i)\<lparr>tasks := rest\<rparr>] ! k)))"
  shows "handleTaskDrop boards (Some p) (Some d) targetBoardId (Some target)
       = boards[i := (boards ! i)\<lparr>tasks := rest\<rparr>]"
  using t by (simp add: handleTaskDrop_def i r k Let_def addSubtask_None [OF n])

lemma handleTaskDrop_onto_descendant:
  assumes i: "findIndex (\<lambda>b. board_id b = sourceBoardId d) boards = Some i"
    and r: "findAndRemoveTask (tasks (boards ! i)) (sourceTaskId d) = Some (taskToMove, rest)"
    and u: "distinct (forest_ids (tasks (boards ! i)))"
    and below: "target \<in> set (forest_ids (subtasks taskToMove))"
    and ne: "target \<noteq> []"
  shows "handleTaskDrop boards (Some p) (Some d) (sourceBoardId d) (Some target)
       = boards[i := (boards ! i)\<lparr>tasks := rest\<rparr>]
     \<and> sourceTaskId d \<notin> set (forest_ids rest)"
proof -
  obtain f sub where tm: "taskToMove = Task f sub" by (cases taskToMove)
  have m: "mset (forest_ids (tasks (boards ! i))) = mset (forest_ids rest) + mset (forest_ids [taskToMove])"
    and idm: "task_id f = sourceTaskId d"
    using findAndRemoveTask_ids [OF r] tm by simp_all
  have "mset (forest_ids rest @ forest_ids [taskToMove]) = mset (forest_ids (tasks (boards ! i)))"
    using m by simp
  then have dis: "distinct (forest_ids rest @ forest_ids [taskToMove])"
    using u by (metis mset_eq_imp_distinct_iff)
  have in_t: "target \<in> set (forest_ids [taskToMove])" "sourceTaskId d \<in> set (forest_ids [taskToMove])"
    using below tm idm by simp_all
  have out: "target \<notin> set (forest_ids rest)" "sourceTaskId d \<notin> set (forest_ids rest)"
    using dis in_t by auto
  have "distinct (forest_ids [taskToMove])"
    using dis by simp
  then have tne: "target \<noteq> sourceTaskId d"
    using below tm idm by auto
  have il: "i < length boards"
    using findIndex_Some [OF i] by simp
  have k: "findIndex (\<lambda>b. board_id b = sourceBoardId d) (boards[i := (boards ! i)\<lparr>tasks := rest\<rparr>]) = Some i"
    using i il by (simp add: findIndex_tasks_update)
  have "target \<notin> set (forest_ids (tasks (boards[i := (boards ! i)\<lparr>tasks := rest\<rparr>] ! i)))"
    using out(1) il by simp
  then show ?thesis
    using handleTaskDrop_target_not_found [OF i r k tne ne] out(2) by simp
qed

text \<open>
  Claim C1. A drop of task A on a task D of A's own subtask subtree is said to be
  rejected, with the tree left as it was. \<^verbatim>\<open>handleTaskDrop\<close> has no such check: it
  removes A together with its subtree, then looks for D in what is left, does not find
  it, ignores the \<^verbatim>\<open>false\<close> that \<^verbatim>\<open>addSubtask\<close> returns and commits
  (\<open>handleTaskDrop_onto_descendant\<close>). With A holding D directly, and with D two levels
  below A, the board comes out empty: A and its subtree are gone.
\<close>

theorem handleTaskDrop_onto_own_subtask:
  "handleTaskDrop [sampleBoard ''board-1'' 0 [sampleTask ''A'' [sampleTask ''D'' []]]]
       (Some (payload ''board-1'' ''A'')) (Some (payload ''board-1'' ''A''))
       ''board-1'' (Some ''D'')
     = [sampleBoard ''board-1'' 0 []]
   \<and> handleTaskDrop
       [sampleBoard ''board-1'' 0 [sampleTask ''A'' [sampleTask ''B'' [sampleTask ''D'' []]]]]
       (Some (payload ''board-1'' ''A'')) (Some (payload ''board-1'' ''A''))
       ''board-1'' (Some ''D'')
     = [sampleBoard ''board-1'' 0 []]"
  by (simp add: handleTaskDrop_def sample_defs)


text \<open>
  Claim C10. The source task is looked for only in the board that the drag payload
  names. When that board is there and does not hold the task at any depth, the drop
  leaves the tree as it was, whatever the target is and wherever else the task may be.
\<close>

theorem handleTaskDrop_source_not_in_named_board:
  assumes "findIndex (\<lambda>b. board_id b = sourceBoardId d) boards = Some i"
    and "sourceTaskId d \<notin> set (forest_ids (tasks (boards ! i)))"
  shows "handleTaskDrop boards dragging (Some d) targetBoardId targetTaskId = boards"
  using assms by (simp add: handleTaskDrop_def findAndRemoveTask_None)

theorem handleTaskDrop_source_not_in_named_board_witness:
  "findIndex (\<lambda>b. board_id b = sourceBoardId (payload ''board-1'' ''task-1''))
       [sampleBoard ''board-1'' 0 [], sampleBoard ''board-2'' 1 [sampleTask ''task-1'' []]] = Some 0
   \<and> sourceTaskId (payload ''board-1'' ''task-1'') \<notin> set (forest_ids (tasks
       ([sampleBoard ''board-1'' 0 [], sampleBoard ''board-2'' 1 [sampleTask ''task-1'' []]] ! 0)))
   \<and> ''task-1'' \<in> set (tree_ids
       [sampleBoard ''board-1'' 0 [], sampleBoard ''board-2'' 1 [sampleTask ''task-1'' []]])
   \<and> handleTaskDrop
       [sampleBoard ''board-1'' 0 [], sampleBoard ''board-2'' 1 [sampleTask ''task-1'' []]]
       (Some (payload ''board-1'' ''task-1'')) (Some (payload ''board-1'' ''task-1''))
       ''board-1'' None
     = [sampleBoard ''board-1'' 0 [], sampleBoard ''board-2'' 1 [sampleTask ''task-1'' []]]"
  using handleTaskDrop_source_not_in_named_board
    [of "payload ''board-1'' ''task-1''"
        "[sampleBoard ''board-1'' 0 [], sampleBoard ''board-2'' 1 [sampleTask ''task-1'' []]]" 0
        "Some (payload ''board-1'' ''task-1'')" "''board-1''" None]
  by (simp add: sample_defs tree_ids_def)

section \<open>The board list under task operations\<close>

text \<open>
  Claim C9. Every task-level operation leaves the board list itself as it was: the same
  number of boards and, position by position, the same id, title, colour and order. The
  operations are \<^verbatim>\<open>addNewTask\<close>, \<^verbatim>\<open>deleteTask\<close>, the updates of title, description,
  priority and due date, the three content-item operations and the relocation
  \<^verbatim>\<open>handleTaskDrop\<close>.
\<close>

theorem task_operations_keep_board_list:
  "map board_frame (addNewTask boards boardId now) = map board_frame boards
   \<and> map board_frame (deleteTask boards boardId tid) = map board_frame boards
   \<and> map board_frame (updateTaskTitle boards boardId tid newTitle) = map board_frame boards
   \<and> map board_frame (changeDescription boards boardId tid newDescription) = map board_frame boards
   \<and> map board_frame (updateTaskPriority boards boardId tid newPriority) = map board_frame boards
   \<and> map board_frame (setDueDate boards tid boardId date) = map board_frame boards
   \<and> map board_frame (addContentItem boards tid boardId contentType) = map board_frame boards
   \<and> map board_frame (deleteContentItem boards tid boardId contentIndex) = map board_frame boards
   \<and> map board_frame (stateAfter boards (changeContentItem boards boardId tid index newText))
       = map board_frame boards
   \<and> map board_frame (handleTaskDrop boards dragging jsonData targetBoardId targetTaskId)
       = map board_frame boards"
  by (simp add: addNewTask_def deleteTask_def updateTaskTitle_def changeDescription_def
      updateTaskPriority_def setDueDate_def addContentItem_def deleteContentItem_def
      frame_inBoard frame_changeContentItem frame_handleTaskDrop)

section \<open>Board reordering\<close>

lemma assignOrder_length [simp]: "length (assignOrder k bs) = length bs"
  by (induction bs arbitrary: k) auto

lemma assignOrder_nth:
  "i < length bs \<Longrightarrow> assignOrder k bs ! i = (bs ! i)\<lparr>order := int (k + i)\<rparr>"
proof (induction bs arbitrary: k i)
  case Nil then show ?case by simp
next
  case (Cons b bs)
  then show ?case by (cases i) auto
qed

lemma assignOrder_order: "map order (assignOrder k bs) = map int [k..<k + length bs]"
proof (induction bs arbitrary: k)
  case Nil then show ?case by simp
next
  case (Cons b bs)
  have "[k..<k + length (b # bs)] = k # [Suc k..<Suc k + length bs]"
    by (simp add: upt_rec)
  with Cons show ?case by simp
qed

lemma assignOrder_content: "map board_content (assignOrder k bs) = map board_content bs"
  by (induction bs arbitrary: k) (auto simp: board_content_def)

lemma assignOrder_ids: "map board_id (assignOrder k bs) = map board_id bs"
  by (induction bs arbitrary: k) auto

lemma splice_remove1_index:
  "i < length xs \<Longrightarrow> splice_remove1 xs (int i) = take i xs @ drop (Suc i) xs"
  by (simp add: splice_remove1_def splice_start_def Let_def)

lemma mset_splice_remove1:
  "i < length xs \<Longrightarrow> add_mset (xs ! i) (mset (splice_remove1 xs (int i))) = mset xs"
proof -
  assume i: "i < length xs"
  have "mset xs = mset (take i xs @ xs ! i # drop (Suc i) xs)"
    using i by (simp add: id_take_nth_drop [symmetric])
  then show ?thesis using i by (simp add: splice_remove1_index)
qed

lemma mset_splice_insert: "mset (splice_insert xs k x) = add_mset x (mset xs)"
proof -
  have "mset (take k xs) + mset (drop k xs) = mset xs"
    by (metis append_take_drop_id mset_append)
  then show ?thesis by (simp add: splice_insert_def)
qed

lemma handleBoardDrop_moves:
  assumes "boardMoves boards db s t"
    and "findIndex (\<lambda>b. board_id b = s) boards = Some di"
    and "findIndex (\<lambda>b. board_id b = t) boards = Some ti"
  shows "handleBoardDrop boards db s t =
     assignOrder 0 (splice_insert (take di boards @ drop (Suc di) boards) ti (boards ! di))"
  using assms findIndex_Some [OF assms(2)]
  by (auto simp: handleBoardDrop_def boardMoves_def splice_remove1_index)

lemma handleBoardDrop_stays:
  "\<not> boardMoves boards db s t \<Longrightarrow> handleBoardDrop boards db s t = boards"
  by (auto simp: handleBoardDrop_def boardMoves_def split: option.splits)

lemma handleBoardDrop_mset_boards:
  "mset (map board_content (handleBoardDrop boards db s t)) = mset (map board_content boards)"
proof (cases "boardMoves boards db s t")
  case False
  then show ?thesis by (simp add: handleBoardDrop_stays)
next
  case True
  then obtain di ti where di: "findIndex (\<lambda>b. board_id b = s) boards = Some di"
    and ti: "findIndex (\<lambda>b. board_id b = t) boards = Some ti"
    by (auto simp: boardMoves_def)
  have lt: "di < length boards" using findIndex_Some [OF di] by simp
  have "mset (splice_insert (take di boards @ drop (Suc di) boards) ti (boards ! di)) = mset boards"
    using mset_splice_remove1 [OF lt] lt
    by (simp add: mset_splice_insert splice_remove1_index)
  then have "mset (map board_content (splice_insert (take di boards @ drop (Suc di) boards) ti (boards ! di)))
      = mset (map board_content boards)"
    by (metis mset_map)
  then show ?thesis
    by (simp add: handleBoardDrop_moves [OF True di ti] assignOrder_content)
qed

lemma handleBoardDrop_length: "length (handleBoardDrop boards db s t) = length boards"
  by (metis handleBoardDrop_mset_boards length_map size_mset)

lemma handleBoardDrop_orders:
  assumes "boardMoves boards db s t"
  shows "map order (handleBoardDrop boards db s t) = map int [0..<length boards]"
proof -
  obtain di ti where di: "findIndex (\<lambda>b. board_id b = s) boards = Some di"
    and ti: "findIndex (\<lambda>b. board_id b = t) boards = Some ti"
    using assms by (auto simp: boardMoves_def)
  have "map order (handleBoardDrop boards db s t)
      = map int [0..<0 + length (splice_insert (take di boards @ drop (Suc di) boards) ti (boards ! di))]"
    unfolding handleBoardDrop_moves [OF assms di ti] by (rule assignOrder_order)
  moreover have "length (splice_insert (take di boards @ drop (Suc di) boards) ti (boards ! di))
      = length boards"
    using handleBoardDrop_length [of boards db s t]
    by (simp add: handleBoardDrop_moves [OF assms di ti])
  ultimately show ?thesis by simp
qed




lemma findIndex_append_left:
  "findIndex P xs = Some i \<Longrightarrow> findIndex P (xs @ ys) = Some i"
  by (induction xs arbitrary: i) (auto split: if_splits)

lemma findIndex_take:
  "findIndex P xs = Some i \<Longrightarrow> i < n \<Longrightarrow> findIndex P (take n xs) = Some i"
proof (induction xs arbitrary: i n)
  case Nil then show ?case by simp
next
  case (Cons x xs)
  then show ?case by (cases n) (auto split: if_splits)
qed

lemma moved_list_facts:
  assumes di: "di < length xs" and ti: "ti < length xs"
  defines "rest \<equiv> take di xs @ drop (Suc di) xs"
  defines "L \<equiv> splice_insert rest ti (xs ! di)"
  shows "length L = length xs"
    and "L ! ti = xs ! di"
    and "take ti L @ drop (Suc ti) L = rest"
    and "di < ti \<Longrightarrow> L ! (ti - 1) = xs ! ti"
    and "ti < di \<Longrightarrow> L ! Suc ti = xs ! ti"
proof -
  have lr: "length rest = length xs - 1" using di by (auto simp: rest_def)
  have tr: "ti \<le> length rest" using ti lr by simp
  show "length L = length xs" using di lr by (simp add: L_def splice_insert_def)
  show "L ! ti = xs ! di" using tr by (simp add: L_def splice_insert_def nth_append)
  show "take ti L @ drop (Suc ti) L = rest" using tr by (simp add: L_def splice_insert_def)
  show "L ! (ti - 1) = xs ! ti" if "di < ti"
  proof -
    have "L ! (ti - 1) = rest ! (ti - 1)"
      using tr that by (simp add: L_def splice_insert_def nth_append)
    also have "\<dots> = drop (Suc di) xs ! (ti - 1 - di)"
    proof -
      have "\<not> ti - 1 < di" using that by arith
      then show ?thesis using di by (simp add: rest_def nth_append)
    qed
    also have "\<dots> = xs ! ti" using that ti by simp
    finally show ?thesis .
  qed
  show "L ! Suc ti = xs ! ti" if "ti < di"
  proof -
    have "L ! Suc ti = rest ! ti"
      using tr that di lr by (simp add: L_def splice_insert_def nth_append)
    also have "\<dots> = xs ! ti" using that di by (simp add: rest_def nth_append)
    finally show ?thesis .
  qed
qed

lemma handleBoardDrop_agrees_with_spec:
  assumes mv: "boardMoves boards db s t"
    and di: "findIndex (\<lambda>b. board_id b = s) boards = Some di"
    and ti: "findIndex (\<lambda>b. board_id b = t) boards = Some ti"
    and lt: "ti < di"
  shows "handleBoardDrop boards db s t = reorderBoards_spec boards s t"
proof -
  have "findIndex (\<lambda>b. board_id b = t) (take di boards) = Some ti"
    using ti lt by (rule findIndex_take)
  then have "findIndex (\<lambda>b. board_id b = t) (take di boards @ drop (Suc di) boards) = Some ti"
    by (rule findIndex_append_left)
  moreover have "s \<noteq> t" using mv by (simp add: boardMoves_def)
  ultimately show ?thesis
    by (simp add: handleBoardDrop_moves [OF mv di ti] reorderBoards_spec_def di splice_insert_def)
qed





text \<open>
  Claim C7. The source board is said to be reinserted immediately before the target
  board, wherever the two stand. \<^verbatim>\<open>handleBoardDrop\<close> takes both indices first, splices
  the source out and splices it back in at the index the target had: a source that stood
  after the target lands immediately before it, as the specification's wording gives it,
  and a source that stood before the target lands immediately after it. The other boards
  keep their sequence, every order becomes the index, and a drop that does not pass the
  guards changes nothing. Dropping the first of three boards on the last puts it last,
  where the specification's wording puts it in the middle.
\<close>

theorem handleBoardDrop_position:
  "(\<not> boardMoves boards draggingBoard sourceId targetBoardId \<longrightarrow>
       handleBoardDrop boards draggingBoard sourceId targetBoardId = boards)
   \<and> (boardMoves boards draggingBoard sourceId targetBoardId
       \<and> findIndex (\<lambda>b. board_id b = sourceId) boards = Some di
       \<and> findIndex (\<lambda>b. board_id b = targetBoardId) boards = Some ti \<longrightarrow>
         length (handleBoardDrop boards draggingBoard sourceId targetBoardId) = length boards
       \<and> handleBoardDrop boards draggingBoard sourceId targetBoardId ! ti
           = (boards ! di)\<lparr>order := int ti\<rparr>
       \<and> take ti (map board_content (handleBoardDrop boards draggingBoard sourceId targetBoardId))
           @ drop (Suc ti) (map board_content (handleBoardDrop boards draggingBoard sourceId targetBoardId))
           = map board_content (take di boards @ drop (Suc di) boards)
       \<and> map order (handleBoardDrop boards draggingBoard sourceId targetBoardId)
           = map int [0..<length boards]
       \<and> (ti < di \<longrightarrow>
            board_content (handleBoardDrop boards draggingBoard sourceId targetBoardId ! Suc ti)
              = board_content (boards ! ti)
          \<and> handleBoardDrop boards draggingBoard sourceId targetBoardId
              = reorderBoards_spec boards sourceId targetBoardId)
       \<and> (di < ti \<longrightarrow>
            board_content (handleBoardDrop boards draggingBoard sourceId targetBoardId ! (ti - 1))
              = board_content (boards ! ti)))"
proof (intro conjI impI)
  assume "\<not> boardMoves boards draggingBoard sourceId targetBoardId"
  then show "handleBoardDrop boards draggingBoard sourceId targetBoardId = boards"
    by (rule handleBoardDrop_stays)
next
  assume a: "boardMoves boards draggingBoard sourceId targetBoardId
       \<and> findIndex (\<lambda>b. board_id b = sourceId) boards = Some di
       \<and> findIndex (\<lambda>b. board_id b = targetBoardId) boards = Some ti"
  then have mv: "boardMoves boards draggingBoard sourceId targetBoardId"
    and di: "findIndex (\<lambda>b. board_id b = sourceId) boards = Some di"
    and ti: "findIndex (\<lambda>b. board_id b = targetBoardId) boards = Some ti"
    by simp_all
  let ?R = "handleBoardDrop boards draggingBoard sourceId targetBoardId"
  let ?L = "splice_insert (take di boards @ drop (Suc di) boards) ti (boards ! di)"
  have R: "?R = assignOrder 0 ?L"
    by (rule handleBoardDrop_moves [OF mv di ti])
  have dl: "di < length boards" and tl: "ti < length boards"
    using findIndex_Some [OF di] findIndex_Some [OF ti] by simp_all
  note F = moved_list_facts [OF dl tl]
  show "length ?R = length boards"
    by (simp add: R F(1))
  show "?R ! ti = (boards ! di)\<lparr>order := int ti\<rparr>"
    using tl by (simp add: R assignOrder_nth F(1) F(2))
  have "take ti (map board_content ?L) @ drop (Suc ti) (map board_content ?L)
      = map board_content (take ti ?L @ drop (Suc ti) ?L)"
    by (simp add: take_map drop_map)
  then show "take ti (map board_content ?R) @ drop (Suc ti) (map board_content ?R)
      = map board_content (take di boards @ drop (Suc di) boards)"
    by (simp only: R assignOrder_content F(3))
  show "map order ?R = map int [0..<length boards]"
    by (rule handleBoardDrop_orders [OF mv])
  show "board_content (?R ! Suc ti) = board_content (boards ! ti)" if "ti < di"
  proof -
    have "Suc ti < length ?L" using that dl by (simp add: F(1))
    then have "?R ! Suc ti = (?L ! Suc ti)\<lparr>order := int (Suc ti)\<rparr>"
      by (simp add: R assignOrder_nth)
    then show ?thesis by (simp add: F(5) [OF that] board_content_def)
  qed
  show "?R = reorderBoards_spec boards sourceId targetBoardId" if "ti < di"
    by (rule handleBoardDrop_agrees_with_spec [OF mv di ti that])
  show "board_content (?R ! (ti - 1)) = board_content (boards ! ti)" if "di < ti"
  proof -
    have "ti - 1 < length ?L" using tl by (simp add: F(1))
    then have "?R ! (ti - 1) = (?L ! (ti - 1))\<lparr>order := int (ti - 1)\<rparr>"
      by (simp add: R assignOrder_nth)
    then show ?thesis using F(4) [OF that] by (simp add: board_content_def)
  qed
qed

theorem handleBoardDrop_position_witness:
  "boardMoves threeBoards (Some ''board-1'') ''board-1'' ''board-3''
   \<and> findIndex (\<lambda>b. board_id b = ''board-1'') threeBoards = Some 0
   \<and> findIndex (\<lambda>b. board_id b = ''board-3'') threeBoards = Some 2
   \<and> handleBoardDrop threeBoards (Some ''board-1'') ''board-1'' ''board-3'' ! 2
       = (threeBoards ! 0)\<lparr>order := 2\<rparr>
   \<and> board_content (handleBoardDrop threeBoards (Some ''board-1'') ''board-1'' ''board-3'' ! 1)
       = board_content (threeBoards ! 2)
   \<and> boardMoves threeBoards (Some ''board-3'') ''board-3'' ''board-1''
   \<and> handleBoardDrop threeBoards (Some ''board-3'') ''board-3'' ''board-1'' ! 0
       = (threeBoards ! 2)\<lparr>order := 0\<rparr>
   \<and> board_content (handleBoardDrop threeBoards (Some ''board-3'') ''board-3'' ''board-1'' ! 1)
       = board_content (threeBoards ! 0)
   \<and> \<not> boardMoves threeBoards (Some ''board-2'') ''board-2'' ''board-2''
   \<and> handleBoardDrop threeBoards (Some ''board-2'') ''board-2'' ''board-2'' = threeBoards"
proof -
  have i1: "findIndex (\<lambda>b. board_id b = ''board-1'') threeBoards = Some 0"
    and i3: "findIndex (\<lambda>b. board_id b = ''board-3'') threeBoards = Some 2"
    by (simp_all add: threeBoards_def sample_defs)
  have m13: "boardMoves threeBoards (Some ''board-1'') ''board-1'' ''board-3''"
    and m31: "boardMoves threeBoards (Some ''board-3'') ''board-3'' ''board-1''"
    and m22: "\<not> boardMoves threeBoards (Some ''board-2'') ''board-2'' ''board-2''"
    by (simp_all add: boardMoves_def i1 i3)
  have w13: "handleBoardDrop threeBoards (Some ''board-1'') ''board-1'' ''board-3'' ! 2
        = (threeBoards ! 0)\<lparr>order := int 2\<rparr>
      \<and> ((0::nat) < 2 \<longrightarrow>
           board_content (handleBoardDrop threeBoards (Some ''board-1'') ''board-1'' ''board-3'' ! (2 - 1))
             = board_content (threeBoards ! 2))"
    using handleBoardDrop_position
        [of threeBoards "Some ''board-1''" "''board-1''" "''board-3''" 0 2] m13 i1 i3
    by blast
  have w31: "handleBoardDrop threeBoards (Some ''board-3'') ''board-3'' ''board-1'' ! 0
        = (threeBoards ! 2)\<lparr>order := int 0\<rparr>
      \<and> ((0::nat) < 2 \<longrightarrow>
           board_content (handleBoardDrop threeBoards (Some ''board-3'') ''board-3'' ''board-1'' ! Suc 0)
             = board_content (threeBoards ! 0))"
    using handleBoardDrop_position
        [of threeBoards "Some ''board-3''" "''board-3''" "''board-1''" 2 0] m31 i1 i3
    by blast
  have w22: "handleBoardDrop threeBoards (Some ''board-2'') ''board-2'' ''board-2'' = threeBoards"
    using handleBoardDrop_position
        [of threeBoards "Some ''board-2''" "''board-2''" "''board-2''" 0 0] m22
    by blast
  have one: "(2::nat) - 1 = 1" "Suc 0 = 1" "int 2 = 2" "int 0 = 0"
    by simp_all
  have lt: "(0::nat) < 2"
    by simp
  show ?thesis
    using w13 w31 w22 i1 i3 m13 m31 m22 lt unfolding one by blast
qed

text \<open>Claim C7 as written, at a source that stands before the target: the code's result next
  to the result of the specification's wording.\<close>

theorem handleBoardDrop_source_before_target:
  "map board_id (handleBoardDrop threeBoards (Some ''board-1'') ''board-1'' ''board-3'')
     = [''board-2'', ''board-3'', ''board-1'']
   \<and> map board_id (reorderBoards_spec threeBoards ''board-1'' ''board-3'')
     = [''board-2'', ''board-1'', ''board-3'']"
  by (simp add: handleBoardDrop_def reorderBoards_spec_def threeBoards_def sample_defs
      splice_remove1_def splice_start_def splice_insert_def)

section \<open>Deleting a task\<close>

lemma findTask_None: "findTask ts tid = None \<longleftrightarrow> tid \<notin> set (forest_ids ts)"
  by (induction ts tid rule: findTask.induct) (auto split: option.splits)

lemma findTask_id: "findTask ts tid = Some t \<Longrightarrow> task_id (attrs t) = tid"
  by (induction ts tid rule: findTask.induct) (auto split: option.splits if_splits)

lemma removeTask_None: "findTask ts tid = None \<Longrightarrow> removeTask ts tid = None"
  by (induction ts tid rule: removeTask.induct) (auto split: option.splits if_splits)

lemma removeTask_Some:
  "findTask ts tid = Some t \<Longrightarrow>
     \<exists>ts'. removeTask ts tid = Some ts'
       \<and> mset (forest_ids ts) = mset (forest_ids ts') + mset (forest_ids [t])"
proof (induction ts tid rule: removeTask.induct)
  case (1 tid)
  then show ?case by simp
next
  case (2 f sub ts tid)
  show ?case
  proof (cases "task_id f = tid")
    case True
    with 2 show ?thesis by auto
  next
    case ne: False
    show ?thesis
    proof (cases "findTask sub tid")
      case (Some u)
      with ne 2 show ?thesis by auto
    next
      case None
      then have "removeTask sub tid = None" by (rule removeTask_None)
      with ne None 2 show ?thesis by auto
    qed
  qed
qed

lemma mset_tree_ids_update:
  assumes "i < length bs"
  shows "mset (tree_ids (bs[i := (bs ! i)\<lparr>tasks := ts'\<rparr>])) + mset (forest_ids (tasks (bs ! i)))
       = mset (tree_ids bs) + mset (forest_ids ts')"
proof -
  have a: "bs = take i bs @ bs ! i # drop (Suc i) bs"
    using assms by (rule id_take_nth_drop)
  have b: "bs[i := (bs ! i)\<lparr>tasks := ts'\<rparr>] = take i bs @ (bs ! i)\<lparr>tasks := ts'\<rparr> # drop (Suc i) bs"
    using assms by (rule upd_conv_take_nth_drop)
  have "mset (tree_ids (take i bs @ (bs ! i)\<lparr>tasks := ts'\<rparr> # drop (Suc i) bs)) + mset (forest_ids (tasks (bs ! i)))
      = mset (tree_ids (take i bs @ bs ! i # drop (Suc i) bs)) + mset (forest_ids ts')"
    by (simp add: tree_ids_def)
  then show ?thesis using a b by simp
qed

text \<open>
  Claim C5. After \<^verbatim>\<open>deleteTask\<close> no board is said to hold a task with the id, for
  every id present in the tree, and the number of tasks to drop by one plus the number of
  tasks below the deleted one. \<^verbatim>\<open>deleteTask(boardId, taskId)\<close> searches the board it is
  given and no other: called with another board than the one that holds the task it
  deletes nothing. For a tree whose task ids are all different, as the data model has
  them, and a task that lies in the board given, both statements hold.
\<close>

theorem deleteTask_removes_subtree:
  assumes d: "distinct (tree_ids boards)"
    and i: "findIndex (\<lambda>b. board_id b = boardId) boards = Some i"
    and t: "tid \<in> set (forest_ids (tasks (boards ! i)))"
  shows "tid \<notin> set (tree_ids (deleteTask boards boardId tid))
     \<and> length (tree_ids (deleteTask boards boardId tid)) + (1 + subtreeSize (tasks (boards ! i)) tid)
         = length (tree_ids boards)"
proof -
  obtain u where u: "findTask (tasks (boards ! i)) tid = Some u"
    using t findTask_None [of "tasks (boards ! i)" tid] by (cases "findTask (tasks (boards ! i)) tid") auto
  obtain f sub where fs: "u = Task f sub" by (cases u)
  have idu: "task_id f = tid" using findTask_id [OF u] fs by simp
  obtain ts' where r: "removeTask (tasks (boards ! i)) tid = Some ts'"
    and m: "mset (forest_ids (tasks (boards ! i))) = mset (forest_ids ts') + mset (forest_ids [u])"
    using removeTask_Some [OF u] by blast
  have il: "i < length boards" using findIndex_Some [OF i] by simp
  have R: "deleteTask boards boardId tid = boards[i := (boards ! i)\<lparr>tasks := ts'\<rparr>]"
    by (simp add: deleteTask_def inBoard_def i r)
  have "mset (tree_ids (deleteTask boards boardId tid)) + mset (forest_ids (tasks (boards ! i)))
      = mset (tree_ids boards) + mset (forest_ids ts')"
    unfolding R by (rule mset_tree_ids_update [OF il])
  then have M: "mset (tree_ids boards) = mset (tree_ids (deleteTask boards boardId tid)) + mset (forest_ids [u])"
    using m by simp
  have "mset (tree_ids (deleteTask boards boardId tid) @ forest_ids [u]) = mset (tree_ids boards)"
    using M by simp
  then have "distinct (tree_ids (deleteTask boards boardId tid) @ forest_ids [u])"
    using d by (metis mset_eq_imp_distinct_iff)
  moreover have "tid \<in> set (forest_ids [u])"
    using fs idu by simp
  ultimately have c1: "tid \<notin> set (tree_ids (deleteTask boards boardId tid))"
    by auto
  have "size (mset (tree_ids boards)) = size (mset (tree_ids (deleteTask boards boardId tid))) + size (mset (forest_ids [u]))"
    using M by simp
  then have c2: "length (tree_ids (deleteTask boards boardId tid)) + (1 + subtreeSize (tasks (boards ! i)) tid)
         = length (tree_ids boards)"
    using fs by (simp add: subtreeSize_def u)
  show ?thesis using c1 c2 by simp
qed

theorem deleteTask_removes_subtree_witness:
  "distinct (tree_ids nestedBoards)
   \<and> findIndex (\<lambda>b. board_id b = ''board-1'') nestedBoards = Some 0
   \<and> ''A'' \<in> set (forest_ids (tasks (nestedBoards ! 0)))
   \<and> tree_ids nestedBoards = [''A'', ''B'', ''C'', ''D'']
   \<and> subtreeSize (tasks (nestedBoards ! 0)) ''A'' = 2
   \<and> ''A'' \<notin> set (tree_ids (deleteTask nestedBoards ''board-1'' ''A''))
   \<and> length (tree_ids (deleteTask nestedBoards ''board-1'' ''A''))
        + (1 + subtreeSize (tasks (nestedBoards ! 0)) ''A'')
       = length (tree_ids nestedBoards)"
proof -
  have ids: "tree_ids nestedBoards = [''A'', ''B'', ''C'', ''D'']"
    by (simp add: nestedBoards_def tree_ids_def sample_defs)
  have d: "distinct (tree_ids nestedBoards)"
    unfolding ids by simp
  have i: "findIndex (\<lambda>b. board_id b = ''board-1'') nestedBoards = Some 0"
    by (simp add: nestedBoards_def sample_defs)
  have t: "''A'' \<in> set (forest_ids (tasks (nestedBoards ! 0)))"
    by (simp add: nestedBoards_def sample_defs)
  have s: "subtreeSize (tasks (nestedBoards ! 0)) ''A'' = 2"
    by (simp add: subtreeSize_def nestedBoards_def sample_defs)
  show ?thesis
    using deleteTask_removes_subtree [OF d i t] ids d i t s by blast
qed

text \<open>Claim C5 as written, at a task present in the tree and a call that names another board
  than the one that holds it.\<close>

theorem deleteTask_other_board:
  "''task-1'' \<in> set (tree_ids
       [sampleBoard ''board-1'' 0 [sampleTask ''task-1'' []], sampleBoard ''board-2'' 1 []])
   \<and> deleteTask
       [sampleBoard ''board-1'' 0 [sampleTask ''task-1'' []], sampleBoard ''board-2'' 1 []]
       ''board-2'' ''task-1''
     = [sampleBoard ''board-1'' 0 [sampleTask ''task-1'' []], sampleBoard ''board-2'' 1 []]
   \<and> ''task-1'' \<in> set (tree_ids (deleteTask
       [sampleBoard ''board-1'' 0 [sampleTask ''task-1'' []], sampleBoard ''board-2'' 1 []]
       ''board-2'' ''task-1''))"
  by (simp add: deleteTask_def inBoard_def tree_ids_def sample_defs)

section \<open>Content items and their indices\<close>













section \<open>The operations and the objects of the old snapshot\<close>

text \<open>
  First the two models agree: on a well-formed array every operation on references
  commits, read as a value, what the operation on values gives.
\<close>

lemma findIndex_snapshot:
  "findIndex (\<lambda>a. P (heap ! a)) refs = findIndex P (snapshot heap refs)"
  by (induction refs) (auto simp: snapshot_def)

lemma snapshot_update:
  assumes "distinct refs" and "i < length refs"
  shows "snapshot (heap[refs ! i := v]) refs = (snapshot heap refs)[i := heap[refs ! i := v] ! (refs ! i)]"
proof (rule nth_equalityI)
  show "length (snapshot (heap[refs ! i := v]) refs)
      = length ((snapshot heap refs)[i := heap[refs ! i := v] ! (refs ! i)])"
    by (simp add: snapshot_def)
next
  fix j
  assume "j < length (snapshot (heap[refs ! i := v]) refs)"
  then have j: "j < length refs" by (simp add: snapshot_def)
  show "snapshot (heap[refs ! i := v]) refs ! j
      = (snapshot heap refs)[i := heap[refs ! i := v] ! (refs ! i)] ! j"
  proof (cases "j = i")
    case True
    then show ?thesis using j by (simp add: snapshot_def)
  next
    case False
    then have "refs ! j \<noteq> refs ! i"
      using assms j by (simp add: nth_eq_iff_index_eq)
    then show ?thesis using False j by (simp add: snapshot_def)
  qed
qed

lemma snapshot_update_in:
  assumes "wellFormed heap refs" and "i < length refs"
  shows "snapshot (heap[refs ! i := v]) refs = (snapshot heap refs)[i := v]"
proof -
  have "refs ! i < length heap"
    using assms by (simp add: wellFormed_def list_all_length)
  then have "heap[refs ! i := v] ! (refs ! i) = v" by simp
  then show ?thesis
    using snapshot_update [of refs i heap v] assms by (simp add: wellFormed_def)
qed

lemma snapshot_nth: "i < length refs \<Longrightarrow> snapshot heap refs ! i = heap ! (refs ! i)"
  by (simp add: snapshot_def)

lemma snapshot_inBoard_h:
  assumes "wellFormed heap boards"
  shows "snapshot (fst (inBoard_h heap boards boardId h)) (snd (inBoard_h heap boards boardId h))
       = inBoard (snapshot heap boards) boardId h"
proof (cases "findIndex (\<lambda>b. board_id b = boardId) (snapshot heap boards)")
  case None
  then show ?thesis
    by (simp add: inBoard_h_def inBoard_def findIndex_snapshot [of "\<lambda>b. board_id b = boardId"])
next
  case (Some i)
  then have i: "i < length boards"
    using findIndex_Some [OF Some] by (simp add: snapshot_def)
  show ?thesis
    using Some i snapshot_update_in [OF assms i]
    by (simp add: inBoard_h_def inBoard_def findIndex_snapshot [of "\<lambda>b. board_id b = boardId"]
        snapshot_nth split: option.splits)
qed


lemma snapshot_changeContentItem_h:
  assumes "wellFormed heap boards"
  shows "map_sum id (\<lambda>hb. snapshot (fst hb) (snd hb))
           (changeContentItem_h heap boards boardId tid index newText)
       = changeContentItem (snapshot heap boards) boardId tid index newText"
proof (cases "findIndex (\<lambda>b. board_id b = boardId) (snapshot heap boards)")
  case None
  then show ?thesis
    by (simp add: changeContentItem_h_def changeContentItem_def
        findIndex_snapshot [of "\<lambda>b. board_id b = boardId"])
next
  case (Some i)
  then have i: "i < length boards"
    using findIndex_Some [OF Some] by (simp add: snapshot_def)
  show ?thesis
    using Some i snapshot_update_in [OF assms i]
    by (simp add: changeContentItem_h_def changeContentItem_def
        findIndex_snapshot [of "\<lambda>b. board_id b = boardId"] snapshot_nth
        split: option.splits sum.splits)
qed

lemma snapshot_updateBoardTitle_h:
  assumes "wellFormed heap boards"
  shows "snapshot (fst (updateBoardTitle_h heap boards boardId newTitle))
           (snd (updateBoardTitle_h heap boards boardId newTitle))
       = updateBoardTitle (snapshot heap boards) boardId newTitle"
proof (cases "findIndex (\<lambda>b. board_id b = boardId) (snapshot heap boards)")
  case None
  then show ?thesis
    by (simp add: updateBoardTitle_h_def updateBoardTitle_def
        findIndex_snapshot [of "\<lambda>b. board_id b = boardId"])
next
  case (Some i)
  then have i: "i < length boards"
    using findIndex_Some [OF Some] by (simp add: snapshot_def)
  show ?thesis
    using Some i snapshot_update_in [OF assms i]
    by (simp add: updateBoardTitle_h_def updateBoardTitle_def
        findIndex_snapshot [of "\<lambda>b. board_id b = boardId"] snapshot_nth)
qed

lemma snapshot_append:
  "list_all (\<lambda>a. a < length heap) refs \<Longrightarrow> snapshot (heap @ extra) refs = snapshot heap refs"
  by (induction refs) (auto simp: snapshot_def nth_append)

lemma snapshot_addNewBoard_h:
  assumes "wellFormed heap boards"
  shows "snapshot (fst (addNewBoard_h heap boards now r)) (snd (addNewBoard_h heap boards now r))
       = addNewBoard (snapshot heap boards) now r"
proof -
  have "list_all (\<lambda>a. a < length heap) boards"
    using assms by (simp add: wellFormed_def)
  then have "snapshot (heap @ extra) boards = snapshot heap boards" for extra
    by (rule snapshot_append)
  then have "map ((!) (heap @ extra)) boards = snapshot heap boards" for extra
    by (simp add: snapshot_def)
  then show ?thesis
    by (simp add: addNewBoard_h_def addNewBoard_def snapshot_def)
qed

lemma snapshot_deleteBoard_h:
  "snapshot (fst (deleteBoard_h heap boards confirmed boardId))
     (snd (deleteBoard_h heap boards confirmed boardId))
   = deleteBoard (snapshot heap boards) confirmed boardId"
  by (simp add: deleteBoard_h_def deleteBoard_def snapshot_def filter_map comp_def)

lemma assignOrder_h_length [simp]: "length (assignOrder_h heap k refs) = length heap"
  by (induction refs arbitrary: heap k) auto

lemma assignOrder_h_other:
  "a \<notin> set refs \<Longrightarrow> assignOrder_h heap k refs ! a = heap ! a"
  by (induction refs arbitrary: heap k) auto

lemma snapshot_assignOrder_h:
  "wellFormed heap refs \<Longrightarrow>
     snapshot (assignOrder_h heap k refs) refs = assignOrder k (snapshot heap refs)"
proof (induction refs arbitrary: heap k)
  case Nil
  then show ?case by (simp add: snapshot_def)
next
  case (Cons a refs)
  let ?h = "heap[a := (heap ! a)\<lparr>order := int k\<rparr>]"
  have a: "a \<notin> set refs" "a < length heap" and w: "wellFormed heap refs"
    using Cons.prems by (simp_all add: wellFormed_def)
  have w': "wellFormed ?h refs"
    using w by (simp add: wellFormed_def)
  have "\<forall>x\<in>set refs. a \<noteq> x"
    using a(1) by auto
  then have same: "snapshot ?h refs = snapshot heap refs"
    by (simp add: snapshot_def)
  have "snapshot (assignOrder_h ?h (Suc k) refs) refs = assignOrder (Suc k) (snapshot heap refs)"
    using Cons.IH [OF w'] same by simp
  moreover have "assignOrder_h ?h (Suc k) refs ! a = (heap ! a)\<lparr>order := int k\<rparr>"
    using a by (simp add: assignOrder_h_other)
  ultimately show ?case
    by (simp add: snapshot_def)
qed

lemma snapshot_splice:
  "i < length refs \<Longrightarrow>
     snapshot heap (splice_insert (splice_remove1 refs (int i)) k (refs ! i))
       = splice_insert (splice_remove1 (snapshot heap refs) (int i)) k (snapshot heap refs ! i)"
  by (simp add: snapshot_def splice_insert_def splice_remove1_def splice_start_def Let_def
      take_map drop_map)

lemma snapshot_handleBoardDrop_h:
  assumes "wellFormed heap boards"
  shows "snapshot (fst (handleBoardDrop_h heap boards db s t)) (snd (handleBoardDrop_h heap boards db s t))
       = handleBoardDrop (snapshot heap boards) db s t"
proof -
  have wf: "wellFormed heap (splice_insert (splice_remove1 boards (int i)) k (boards ! i))"
    if "i < length boards" for i k
  proof -
    have m: "mset (splice_insert (splice_remove1 boards (int i)) k (boards ! i)) = mset boards"
      using mset_splice_remove1 [OF that] by (simp add: mset_splice_insert)
    then have "distinct (splice_insert (splice_remove1 boards (int i)) k (boards ! i))"
      using assms by (metis mset_eq_imp_distinct_iff wellFormed_def)
    moreover have "set (splice_insert (splice_remove1 boards (int i)) k (boards ! i)) = set boards"
      using m by (rule mset_eq_setD)
    ultimately show ?thesis
      using assms by (simp add: wellFormed_def list_all_iff)
  qed
  show ?thesis
  proof (cases "findIndex (\<lambda>b. board_id b = s) (snapshot heap boards)")
    case None
    then show ?thesis
      by (simp add: handleBoardDrop_h_def handleBoardDrop_def
          findIndex_snapshot [of "\<lambda>b. board_id b = s"])
  next
    case si: (Some i)
    then have i: "i < length boards"
      using findIndex_Some [OF si] by (simp add: snapshot_def)
    show ?thesis
    proof (cases "findIndex (\<lambda>b. board_id b = t) (snapshot heap boards)")
      case None
      then show ?thesis
        by (simp add: handleBoardDrop_h_def handleBoardDrop_def si
            findIndex_snapshot [of "\<lambda>b. board_id b = s"]
            findIndex_snapshot [of "\<lambda>b. board_id b = t"])
    next
      case (Some k)
      then show ?thesis
        using snapshot_assignOrder_h [OF wf [OF i], of 0 k] snapshot_splice [OF i, of heap k]
        by (simp add: handleBoardDrop_h_def handleBoardDrop_def si Let_def
            findIndex_snapshot [of "\<lambda>b. board_id b = s"]
            findIndex_snapshot [of "\<lambda>b. board_id b = t"])
    qed
  qed
qed


lemma snapshot_length [simp]: "length (snapshot heap refs) = length refs"
  by (simp add: snapshot_def)

lemma snapshot_update_outside:
  "a \<notin> set refs \<Longrightarrow> snapshot (heap[a := v]) refs = snapshot heap refs"
proof -
  assume "a \<notin> set refs"
  then have "\<forall>x\<in>set refs. a \<noteq> x" by auto
  then show ?thesis by (simp add: snapshot_def)
qed

lemma wellFormed_update [simp]: "wellFormed (heap[a := v]) refs = wellFormed heap refs"
  by (simp add: wellFormed_def)

lemma snapshot_handleTaskDrop_h:
  assumes wf: "wellFormed heap boards"
  shows "snapshot (fst (handleTaskDrop_h heap boards dragging jsonData targetBoardId targetTaskId))
           (snd (handleTaskDrop_h heap boards dragging jsonData targetBoardId targetTaskId))
       = handleTaskDrop (snapshot heap boards) dragging jsonData targetBoardId targetTaskId"
proof (cases "dragging = None \<or> jsonData = None
    \<or> (\<exists>d. jsonData = Some d \<and> targetTaskId = Some (sourceTaskId d))")
  case True
  then show ?thesis
    by (auto simp: handleTaskDrop_h_def handleTaskDrop_def)
next
  case False
  then obtain d dr where d: "jsonData = Some d" and g: "dragging = Some dr"
    "targetTaskId \<noteq> Some (sourceTaskId d)"
    by auto
  define B where "B = snapshot heap boards"
  define H1 where "H1 = heap @ map (\<lambda>a. heap ! a) boards"
  define nb where "nb = [length heap..<length heap + length boards]"
  have range: "list_all (\<lambda>a. a < length heap) boards"
    using wf by (simp add: wellFormed_def)
  have wf1: "wellFormed H1 nb"
    by (simp add: wellFormed_def H1_def nb_def list_all_iff)
  have s1: "snapshot H1 nb = B"
    by (rule nth_equalityI) (simp_all add: snapshot_def H1_def nb_def B_def nth_append)
  have old1: "snapshot H1 boards = B"
    unfolding H1_def B_def using range by (rule snapshot_append)
  have apart: "nb ! i \<notin> set boards" if "i < length boards" for i
  proof
    assume "nb ! i \<in> set boards"
    then have "nb ! i < length heap"
      using range by (simp add: list_all_iff)
    then show False using that by (simp add: nb_def)
  qed
  have lnb: "length nb = length boards"
    by (simp add: nb_def)
  have L: "handleTaskDrop_h heap boards dragging jsonData targetBoardId targetTaskId =
     (case findIndex (\<lambda>a. board_id (H1 ! a) = sourceBoardId d) nb of
        None \<Rightarrow> (H1, boards)
      | Some sourceBoardIndex \<Rightarrow>
          (case findAndRemoveTask (tasks (H1 ! (nb ! sourceBoardIndex))) (sourceTaskId d) of
             None \<Rightarrow> (H1, boards)
           | Some (taskToMove, rest) \<Rightarrow>
               let heap2 = H1[nb ! sourceBoardIndex := (H1 ! (nb ! sourceBoardIndex))\<lparr>tasks := rest\<rparr>]
               in case findIndex (\<lambda>a. board_id (heap2 ! a) = targetBoardId) nb of
                    None \<Rightarrow> (heap2, boards)
                  | Some targetBoardIndex \<Rightarrow>
                      if targetTaskId \<noteq> None \<and> targetTaskId \<noteq> Some []
                      then (case addSubtask (tasks (heap2 ! (nb ! targetBoardIndex)))
                                   (the targetTaskId) taskToMove of
                              None \<Rightarrow> (heap2, nb)
                            | Some ts' \<Rightarrow>
                                (heap2[nb ! targetBoardIndex :=
                                   (heap2 ! (nb ! targetBoardIndex))\<lparr>tasks := ts'\<rparr>], nb))
                      else (heap2[nb ! targetBoardIndex :=
                              (heap2 ! (nb ! targetBoardIndex))
                                \<lparr>tasks := tasks (heap2 ! (nb ! targetBoardIndex)) @ [taskToMove]\<rparr>], nb)))"
    using d g unfolding handleTaskDrop_h_def H1_def nb_def Let_def by simp
  have R: "handleTaskDrop (snapshot heap boards) dragging jsonData targetBoardId targetTaskId =
     (case findIndex (\<lambda>b. board_id b = sourceBoardId d) B of
        None \<Rightarrow> B
      | Some sourceBoardIndex \<Rightarrow>
          (case findAndRemoveTask (tasks (B ! sourceBoardIndex)) (sourceTaskId d) of
             None \<Rightarrow> B
           | Some (taskToMove, rest) \<Rightarrow>
               let newBoards = B[sourceBoardIndex := (B ! sourceBoardIndex)\<lparr>tasks := rest\<rparr>]
               in case findIndex (\<lambda>b. board_id b = targetBoardId) newBoards of
                    None \<Rightarrow> B
                  | Some targetBoardIndex \<Rightarrow>
                      if targetTaskId \<noteq> None \<and> targetTaskId \<noteq> Some []
                      then (case addSubtask (tasks (newBoards ! targetBoardIndex)) (the targetTaskId) taskToMove of
                              None \<Rightarrow> newBoards
                            | Some ts' \<Rightarrow> newBoards[targetBoardIndex := (newBoards ! targetBoardIndex)\<lparr>tasks := ts'\<rparr>])
                      else newBoards[targetBoardIndex :=
                             (newBoards ! targetBoardIndex)\<lparr>tasks := tasks (newBoards ! targetBoardIndex) @ [taskToMove]\<rparr>]))"
    using d g unfolding handleTaskDrop_def B_def Let_def by simp
  have f1: "findIndex (\<lambda>a. board_id (H1 ! a) = x) nb = findIndex (\<lambda>b. board_id b = x) B" for x
    using findIndex_snapshot [of "\<lambda>b. board_id b = x" H1 nb] by (simp add: s1)
  show ?thesis
  proof (cases "findIndex (\<lambda>b. board_id b = sourceBoardId d) B")
    case None
    then show ?thesis by (simp add: L R f1 old1)
  next
    case si: (Some si)
    have sil: "si < length boards"
      using findIndex_Some [OF si] by (simp add: B_def)
    have c1: "H1 ! (nb ! si) = B ! si"
      using sil snapshot_nth [of si nb H1] by (simp add: s1 lnb)
    show ?thesis
    proof (cases "findAndRemoveTask (tasks (B ! si)) (sourceTaskId d)")
      case None
      then show ?thesis by (simp add: L R f1 si c1 old1)
    next
      case (Some p)
      obtain taskToMove rest where p: "p = (taskToMove, rest)" by (cases p)
      define H2 where "H2 = H1[nb ! si := (B ! si)\<lparr>tasks := rest\<rparr>]"
      define B2 where "B2 = B[si := (B ! si)\<lparr>tasks := rest\<rparr>]"
      have wf2: "wellFormed H2 nb"
        using wf1 by (simp add: H2_def)
      have s2: "snapshot H2 nb = B2"
        using snapshot_update_in [OF wf1, of si] sil by (simp add: H2_def B2_def s1 lnb)
      have old2: "snapshot H2 boards = B"
        using snapshot_update_outside [OF apart [OF sil]] by (simp add: H2_def old1)
      have f2: "findIndex (\<lambda>a. board_id (H2 ! a) = x) nb = findIndex (\<lambda>b. board_id b = x) B2" for x
        using findIndex_snapshot [of "\<lambda>b. board_id b = x" H2 nb] by (simp add: s2)
      show ?thesis
      proof (cases "findIndex (\<lambda>b. board_id b = targetBoardId) B2")
        case None
        then show ?thesis
          using Some p by (simp add: L R f1 si c1 Let_def H2_def [symmetric] B2_def [symmetric] f2 old2)
      next
        case ti: (Some ti)
        have til: "ti < length boards"
          using findIndex_Some [OF ti] by (simp add: B2_def B_def)
        have c2: "H2 ! (nb ! ti) = B2 ! ti"
          using til snapshot_nth [of ti nb H2] by (simp add: s2 lnb)
        have s3: "snapshot (H2[nb ! ti := v]) nb = B2[ti := v]" for v
          using snapshot_update_in [OF wf2, of ti] til by (simp add: s2 lnb)
        show ?thesis
          using Some p ti
          by (simp add: L R f1 si c1 Let_def H2_def [symmetric] B2_def [symmetric] f2 c2 s2 s3
              split: option.splits)
      qed
    qed
  qed
qed

lemma committed_operations:
  assumes "wellFormed heap boards"
  shows "committed (addNewTask_h heap boards boardId now) = addNewTask (snapshot heap boards) boardId now"
    and "committed (deleteTask_h heap boards boardId tid) = deleteTask (snapshot heap boards) boardId tid"
    and "committed (updateTaskTitle_h heap boards boardId tid newTitle)
           = updateTaskTitle (snapshot heap boards) boardId tid newTitle"
    and "committed (changeDescription_h heap boards boardId tid newDescription)
           = changeDescription (snapshot heap boards) boardId tid newDescription"
    and "committed (updateTaskPriority_h heap boards boardId tid newPriority)
           = updateTaskPriority (snapshot heap boards) boardId tid newPriority"
    and "committed (setDueDate_h heap boards tid boardId date) = setDueDate (snapshot heap boards) tid boardId date"
    and "committed (addContentItem_h heap boards tid boardId contentType)
           = addContentItem (snapshot heap boards) tid boardId contentType"
    and "committed (deleteContentItem_h heap boards tid boardId contentIndex)
           = deleteContentItem (snapshot heap boards) tid boardId contentIndex"
    and "map_sum id committed (changeContentItem_h heap boards boardId tid index newText)
           = changeContentItem (snapshot heap boards) boardId tid index newText"
    and "committed (updateBoardTitle_h heap boards boardId newTitle)
           = updateBoardTitle (snapshot heap boards) boardId newTitle"
    and "committed (addNewBoard_h heap boards now r) = addNewBoard (snapshot heap boards) now r"
    and "committed (deleteBoard_h heap boards confirmed boardId)
           = deleteBoard (snapshot heap boards) confirmed boardId"
    and "committed (handleBoardDrop_h heap boards draggingBoard sourceId targetBoardId)
           = handleBoardDrop (snapshot heap boards) draggingBoard sourceId targetBoardId"
    and "committed (handleTaskDrop_h heap boards dragging jsonData targetBoardId targetTaskId)
           = handleTaskDrop (snapshot heap boards) dragging jsonData targetBoardId targetTaskId"
proof -
  note ib = snapshot_inBoard_h [OF assms]
  show "committed (addNewTask_h heap boards boardId now) = addNewTask (snapshot heap boards) boardId now"
    by (simp add: committed_def addNewTask_h_def addNewTask_def ib)
  show "committed (deleteTask_h heap boards boardId tid) = deleteTask (snapshot heap boards) boardId tid"
    by (simp add: committed_def deleteTask_h_def deleteTask_def ib)
  show "committed (updateTaskTitle_h heap boards boardId tid newTitle)
           = updateTaskTitle (snapshot heap boards) boardId tid newTitle"
    by (simp add: committed_def updateTaskTitle_h_def updateTaskTitle_def ib)
  show "committed (changeDescription_h heap boards boardId tid newDescription)
           = changeDescription (snapshot heap boards) boardId tid newDescription"
    by (simp add: committed_def changeDescription_h_def changeDescription_def ib)
  show "committed (updateTaskPriority_h heap boards boardId tid newPriority)
           = updateTaskPriority (snapshot heap boards) boardId tid newPriority"
    by (simp add: committed_def updateTaskPriority_h_def updateTaskPriority_def ib)
  show "committed (setDueDate_h heap boards tid boardId date) = setDueDate (snapshot heap boards) tid boardId date"
    by (simp add: committed_def setDueDate_h_def setDueDate_def ib)
  show "committed (addContentItem_h heap boards tid boardId contentType)
           = addContentItem (snapshot heap boards) tid boardId contentType"
    by (simp add: committed_def addContentItem_h_def addContentItem_def ib)
  show "committed (deleteContentItem_h heap boards tid boardId contentIndex)
           = deleteContentItem (snapshot heap boards) tid boardId contentIndex"
    by (simp add: committed_def deleteContentItem_h_def deleteContentItem_def ib)
  have "committed = (\<lambda>hb. snapshot (fst hb) (snd hb))"
    by (rule ext) (simp add: committed_def)
  then show "map_sum id committed (changeContentItem_h heap boards boardId tid index newText)
           = changeContentItem (snapshot heap boards) boardId tid index newText"
    using snapshot_changeContentItem_h [OF assms] by simp
  show "committed (updateBoardTitle_h heap boards boardId newTitle)
           = updateBoardTitle (snapshot heap boards) boardId newTitle"
    by (simp add: committed_def snapshot_updateBoardTitle_h [OF assms])
  show "committed (addNewBoard_h heap boards now r) = addNewBoard (snapshot heap boards) now r"
    by (simp add: committed_def snapshot_addNewBoard_h [OF assms])
  show "committed (deleteBoard_h heap boards confirmed boardId)
           = deleteBoard (snapshot heap boards) confirmed boardId"
    by (simp add: committed_def snapshot_deleteBoard_h)
  show "committed (handleBoardDrop_h heap boards draggingBoard sourceId targetBoardId)
           = handleBoardDrop (snapshot heap boards) draggingBoard sourceId targetBoardId"
    by (simp add: committed_def snapshot_handleBoardDrop_h [OF assms])
  show "committed (handleTaskDrop_h heap boards dragging jsonData targetBoardId targetTaskId)
           = handleTaskDrop (snapshot heap boards) dragging jsonData targetBoardId targetTaskId"
    by (simp add: committed_def snapshot_handleTaskDrop_h [OF assms])
qed

text \<open>What each operation writes.\<close>

lemma writesTasksOf_inBoard_h:
  "writesTasksOf heap boards boardId (fst (inBoard_h heap boards boardId h))
   \<and> snd (inBoard_h heap boards boardId h) = boards"
proof (cases "findIndex (\<lambda>a. board_id (heap ! a) = boardId) boards")
  case None
  then show ?thesis by (simp add: inBoard_h_def writesTasksOf_def boardRef_def)
next
  case (Some i)
  show ?thesis
  proof (cases "h (tasks (heap ! (boards ! i)))")
    case None
    with Some show ?thesis
      by (simp add: inBoard_h_def writesTasksOf_def boardRef_def list_update_same_conv)
  next
    case (Some ts')
    with \<open>findIndex _ boards = Some i\<close> show ?thesis
      by (cases "boards ! i < length heap")
         (simp_all add: inBoard_h_def writesTasksOf_def boardRef_def list_update_beyond)
  qed
qed

lemma writesTasksOf_changeContentItem_h:
  "writesTasksOf heap boards boardId
     (fst (memoryAfter heap boards (changeContentItem_h heap boards boardId tid index newText)))
   \<and> snd (memoryAfter heap boards (changeContentItem_h heap boards boardId tid index newText)) = boards"
proof (cases "findIndex (\<lambda>a. board_id (heap ! a) = boardId) boards")
  case None
  then show ?thesis
    by (simp add: changeContentItem_h_def memoryAfter_def writesTasksOf_def boardRef_def)
next
  case (Some i)
  show ?thesis
  proof (cases "updateTaskContent (tasks (heap ! (boards ! i))) tid index newText")
    case (Inl e)
    with Some show ?thesis
      by (simp add: changeContentItem_h_def memoryAfter_def writesTasksOf_def boardRef_def
          list_update_same_conv)
  next
    case (Inr r)
    with Some show ?thesis
      by (cases r; cases "boards ! i < length heap")
         (simp_all add: changeContentItem_h_def memoryAfter_def writesTasksOf_def boardRef_def
            list_update_same_conv list_update_beyond)
  qed
qed

lemma take_handleTaskDrop_h:
  "take (length heap) (fst (handleTaskDrop_h heap boards dragging jsonData targetBoardId targetTaskId)) = heap"
proof -
  have nth: "[length heap..<length heap + length boards] ! i = length heap + i" if "i < length boards" for i
    using that by simp
  have il: "i < length boards"
    if "findIndex P [length heap..<length heap + length boards] = Some i" for P i
    using findIndex_Some [OF that] by simp
  show ?thesis
    unfolding handleTaskDrop_h_def Let_def
    by (auto split: option.splits dest!: il simp: nth)
qed

lemma content_assignOrder_h:
  "map board_content (assignOrder_h heap k refs) = map board_content heap"
proof (induction refs arbitrary: heap k)
  case Nil
  then show ?case by simp
next
  case (Cons a refs)
  have "map board_content (heap[a := (heap ! a)\<lparr>order := int k\<rparr>]) = map board_content heap"
    by (cases "a < length heap")
       (simp_all add: map_update list_update_same_conv list_update_beyond board_content_def)
  with Cons show ?case by simp
qed

lemma handleBoardDrop_h_frame:
  "map board_content (fst (handleBoardDrop_h heap boards db s t)) = map board_content heap
   \<and> mset (snd (handleBoardDrop_h heap boards db s t)) = mset boards"
proof -
  have "mset (splice_insert (splice_remove1 boards (int i)) k (boards ! i)) = mset boards"
    if "i < length boards" for i k
    using mset_splice_remove1 [OF that] by (simp add: mset_splice_insert)
  then show ?thesis
    by (auto simp: handleBoardDrop_h_def Let_def content_assignOrder_h
        split: option.splits dest: findIndex_Some)
qed

text \<open>
  Claim C3. Every public mutation operation is said to leave every board and task object
  that is reachable from the snapshot it started from as it was. That holds for
  \<^verbatim>\<open>handleTaskDrop\<close>, which works on a deep copy, for \<^verbatim>\<open>addNewBoard\<close> and for
  \<^verbatim>\<open>deleteBoard\<close>: every cell that was there before is unchanged. The other
  operations copy the array only and write through it into the objects that the old array
  refers to as well. The task operations (\<^verbatim>\<open>addNewTask\<close>, \<^verbatim>\<open>deleteTask\<close>, the updates
  of title, description, priority and due date, the three content-item operations) keep
  the array of references and change at most the tasks of the one board object selected
  by \<^verbatim>\<open>boardId\<close>; \<^verbatim>\<open>updateBoardTitle\<close> changes the title of that object;
  \<^verbatim>\<open>handleBoardDrop\<close> changes \<^verbatim>\<open>order\<close> fields only and permutes the references.
\<close>

theorem operations_and_shared_objects:
  "take (length heap)
      (fst (handleTaskDrop_h heap boards dragging jsonData targetBoardId targetTaskId)) = heap
   \<and> take (length heap) (fst (addNewBoard_h heap boards now r)) = heap
   \<and> fst (deleteBoard_h heap boards confirmed boardId) = heap
   \<and> writesTasksOf heap boards boardId (fst (addNewTask_h heap boards boardId now))
   \<and> snd (addNewTask_h heap boards boardId now) = boards
   \<and> writesTasksOf heap boards boardId (fst (deleteTask_h heap boards boardId tid))
   \<and> snd (deleteTask_h heap boards boardId tid) = boards
   \<and> writesTasksOf heap boards boardId (fst (updateTaskTitle_h heap boards boardId tid newTitle))
   \<and> snd (updateTaskTitle_h heap boards boardId tid newTitle) = boards
   \<and> writesTasksOf heap boards boardId (fst (changeDescription_h heap boards boardId tid newDescription))
   \<and> snd (changeDescription_h heap boards boardId tid newDescription) = boards
   \<and> writesTasksOf heap boards boardId (fst (updateTaskPriority_h heap boards boardId tid newPriority))
   \<and> snd (updateTaskPriority_h heap boards boardId tid newPriority) = boards
   \<and> writesTasksOf heap boards boardId (fst (setDueDate_h heap boards tid boardId date))
   \<and> snd (setDueDate_h heap boards tid boardId date) = boards
   \<and> writesTasksOf heap boards boardId (fst (addContentItem_h heap boards tid boardId contentType))
   \<and> snd (addContentItem_h heap boards tid boardId contentType) = boards
   \<and> writesTasksOf heap boards boardId (fst (deleteContentItem_h heap boards tid boardId contentIndex))
   \<and> snd (deleteContentItem_h heap boards tid boardId contentIndex) = boards
   \<and> writesTasksOf heap boards boardId
        (fst (memoryAfter heap boards (changeContentItem_h heap boards boardId tid index newText)))
   \<and> snd (memoryAfter heap boards (changeContentItem_h heap boards boardId tid index newText)) = boards
   \<and> fst (updateBoardTitle_h heap boards boardId newTitle)
        = (case boardRef heap boards boardId of
             None \<Rightarrow> heap
           | Some a \<Rightarrow> heap[a := (heap ! a)\<lparr>board_title := newTitle\<rparr>])
   \<and> snd (updateBoardTitle_h heap boards boardId newTitle) = boards
   \<and> map board_content (fst (handleBoardDrop_h heap boards draggingBoard sourceId targetBoardId))
        = map board_content heap
   \<and> mset (snd (handleBoardDrop_h heap boards draggingBoard sourceId targetBoardId)) = mset boards"
proof -
  have t: "fst (updateBoardTitle_h heap boards boardId newTitle)
        = (case boardRef heap boards boardId of
             None \<Rightarrow> heap
           | Some a \<Rightarrow> heap[a := (heap ! a)\<lparr>board_title := newTitle\<rparr>])
      \<and> snd (updateBoardTitle_h heap boards boardId newTitle) = boards"
    by (simp add: updateBoardTitle_h_def boardRef_def split: option.splits)
  show ?thesis
    unfolding addNewTask_h_def deleteTask_h_def updateTaskTitle_h_def changeDescription_h_def
      updateTaskPriority_h_def setDueDate_h_def addContentItem_h_def deleteContentItem_h_def
    using t writesTasksOf_inBoard_h [of heap boards boardId] writesTasksOf_changeContentItem_h
      take_handleTaskDrop_h handleBoardDrop_h_frame
    by (simp add: addNewBoard_h_def deleteBoard_h_def)
qed

text \<open>Claim C3 as written, at \<^verbatim>\<open>updateTaskPriority\<close>: the array that was the state before
  the call, read after the call, shows the new priority.\<close>

theorem updateTaskPriority_h_changes_old_snapshot:
  "snapshot oneTaskHeap [0] = [sampleBoard ''board-1'' 0 [sampleTask ''task-1'' []]]
   \<and> snapshot (fst (updateTaskPriority_h oneTaskHeap [0] ''board-1'' ''task-1'' ''high'')) [0]
       = [sampleBoard ''board-1'' 0
            [Task \<lparr>task_id = ''task-1'', task_title = ''New Task'',
                   description = ''Add description here'', dueDate = [], priority = ''high'',
                   tags = [], content = []\<rparr> []]]
   \<and> snapshot (fst (updateTaskPriority_h oneTaskHeap [0] ''board-1'' ''task-1'' ''high'')) [0]
       \<noteq> snapshot oneTaskHeap [0]"
  by (simp add: snapshot_def updateTaskPriority_h_def inBoard_h_def oneTaskHeap_def sample_defs)

section \<open>Persistence\<close>


























lemma delimited_simps [simp]:
  "delimited []" "delimited (CHR '','' # s)" "delimited (CHR '']'' # s)" "delimited (CHR ''}'' # s)"
  by (simp_all add: delimited_def)

lemma not_space_punct [simp]:
  "\<not> isSpace (CHR '','')" "\<not> isSpace (CHR '']'')" "\<not> isSpace (CHR ''}'')" "\<not> isSpace (CHR '':'')"
  "\<not> isSpace (CHR ''['')" "\<not> isSpace (CHR ''{'')" "\<not> isSpace dquote"
  by (simp_all add: isSpace_def dquote_def)














end
